theory Spec2Isabelle
  imports Complex_Main "HOL-Library.Multiset"
begin


section \<open>JavaScript numbers\<close>

text \<open>
  The load tester computes with JavaScript numbers.  A number is modelled as an exact
  value or one of the three non-finite values; division by zero, the mean of an empty
  list and the minimum of an empty list produce the non-finite values exactly as in
  JavaScript.  Finite arithmetic is exact (rational): the rounding of an IEEE double in
  an intermediate quotient is not modelled, and neither is the sign of zero.
  \<open>rat jsnum\<close> is a number in general, \<open>int jsnum\<close> a number known to be integral
  (a result of \<open>Math.round\<close>, \<open>Math.min\<close>, \<open>Math.max\<close>).
\<close>

datatype 'a jsnum = Finite 'a | NaN | PosInfinity | NegInfinity

text \<open>\<open>a / b\<close> for finite operands.\<close>

definition js_div :: "rat \<Rightarrow> rat \<Rightarrow> rat jsnum" where
  "js_div a b =
     (if b = 0 then (if a = 0 then NaN else if 0 < a then PosInfinity else NegInfinity)
      else Finite (a / b))"

text \<open>\<open>x * k\<close> for a number \<open>x\<close> and a finite \<open>k\<close>.\<close>

fun js_times :: "rat jsnum \<Rightarrow> rat \<Rightarrow> rat jsnum" where
  "js_times (Finite a) k = Finite (a * k)"
| "js_times NaN k = NaN"
| "js_times PosInfinity k = (if k = 0 then NaN else if 0 < k then PosInfinity else NegInfinity)"
| "js_times NegInfinity k = (if k = 0 then NaN else if 0 < k then NegInfinity else PosInfinity)"

text \<open>\<open>x + y\<close>.\<close>

fun js_plus :: "rat jsnum \<Rightarrow> rat jsnum \<Rightarrow> rat jsnum" where
  "js_plus (Finite a) (Finite b) = Finite (a + b)"
| "js_plus NaN y = NaN"
| "js_plus x NaN = NaN"
| "js_plus PosInfinity NegInfinity = NaN"
| "js_plus NegInfinity PosInfinity = NaN"
| "js_plus PosInfinity y = PosInfinity"
| "js_plus NegInfinity y = NegInfinity"
| "js_plus x PosInfinity = PosInfinity"
| "js_plus x NegInfinity = NegInfinity"

text \<open>\<open>x / n\<close> for a number \<open>x\<close> and a finite \<open>n\<close>.\<close>

fun js_over :: "rat jsnum \<Rightarrow> rat \<Rightarrow> rat jsnum" where
  "js_over (Finite a) n = js_div a n"
| "js_over NaN n = NaN"
| "js_over PosInfinity n = (if n < 0 then NegInfinity else PosInfinity)"
| "js_over NegInfinity n = (if n < 0 then PosInfinity else NegInfinity)"

text \<open>\<open>x > k\<close>: every comparison with \<open>NaN\<close> is false.\<close>

fun js_gt :: "rat jsnum \<Rightarrow> rat \<Rightarrow> bool" where
  "js_gt (Finite a) k = (k < a)"
| "js_gt NaN k = False"
| "js_gt PosInfinity k = True"
| "js_gt NegInfinity k = False"

text \<open>\<open>Math.round\<close> rounds to the nearest integer, a half upwards.\<close>

fun Math_round :: "rat jsnum \<Rightarrow> int jsnum" where
  "Math_round (Finite a) = Finite \<lfloor>a + 1 / 2\<rfloor>"
| "Math_round NaN = NaN"
| "Math_round PosInfinity = PosInfinity"
| "Math_round NegInfinity = NegInfinity"

text \<open>\<open>Math.min(...xs)\<close> and \<open>Math.max(...xs)\<close> of integers; of no argument they are
  \<open>Infinity\<close> and \<open>-Infinity\<close>.\<close>

fun Math_min :: "int list \<Rightarrow> int jsnum" where
  "Math_min [] = PosInfinity"
| "Math_min (x # xs) = (case Math_min xs of Finite m \<Rightarrow> Finite (min x m) | _ \<Rightarrow> Finite x)"

fun Math_max :: "int list \<Rightarrow> int jsnum" where
  "Math_max [] = NegInfinity"
| "Math_max (x # xs) = (case Math_max xs of Finite m \<Rightarrow> Finite (max x m) | _ \<Rightarrow> Finite x)"

subsection \<open>Numbers as text\<close>

text \<open>
  Template literals render a number with \<open>ToString\<close>.  Every number the tester renders is
  integral or non-finite; integers are written with all their decimal digits (JavaScript
  switches to exponent notation only from \<open>10^21\<close>).
\<close>

definition digit_char :: "nat \<Rightarrow> char" where
  "digit_char d = char_of (48 + d)"

function str_nat :: "nat \<Rightarrow> string" where
  "str_nat n = (if n < 10 then [digit_char n] else str_nat (n div 10) @ [digit_char (n mod 10)])"
  by pat_completeness auto
termination
  by (relation "measure id") auto

declare str_nat.simps [simp del]

definition str_int :: "int \<Rightarrow> string" where
  "str_int i = (if i < 0 then CHR ''-'' # str_nat (nat (- i)) else str_nat (nat i))"

fun ToString :: "int jsnum \<Rightarrow> string" where
  "ToString (Finite i) = str_int i"
| "ToString NaN = ''NaN''"
| "ToString PosInfinity = ''Infinity''"
| "ToString NegInfinity = ''-Infinity''"

text \<open>
  \<open>parseInt\<close> and \<open>parseFloat\<close> skip leading white space, read an optional sign and the
  longest numeric prefix, and ignore what follows; with no numeric prefix the result is
  \<open>NaN\<close>.  \<open>parseFloat\<close> also reads \<open>Infinity\<close> and a fraction; \<open>parseInt\<close> does neither.
  (An exponent part is not read: none of the texts parsed here has one.)
\<close>

definition is_digit :: "char \<Rightarrow> bool" where
  "is_digit c = (48 \<le> (of_char c :: nat) \<and> (of_char c :: nat) \<le> 57)"

definition is_space :: "char \<Rightarrow> bool" where
  "is_space c = (c = CHR '' '' \<or> c = CHR 0x09 \<or> c = CHR 0x0A \<or> c = CHR 0x0D)"

definition digit_val :: "char \<Rightarrow> nat" where
  "digit_val c = of_char c - 48"

definition nat_of_digits :: "string \<Rightarrow> nat" where
  "nat_of_digits ds = foldl (\<lambda>n c. 10 * n + digit_val c) 0 ds"

definition read_sign :: "string \<Rightarrow> rat \<times> string" where
  "read_sign s =
     (case s of
        c # cs \<Rightarrow> if c = CHR ''-'' then (- 1, cs) else if c = CHR ''+'' then (1, cs) else (1, s)
      | [] \<Rightarrow> (1, s))"

definition parseInt :: "string \<Rightarrow> rat jsnum" where
  "parseInt s =
     (let (sign, body) = read_sign (dropWhile is_space s);
          ds = takeWhile is_digit body
      in if ds = [] then NaN else Finite (sign * of_nat (nat_of_digits ds)))"

definition parseFloat :: "string \<Rightarrow> rat jsnum" where
  "parseFloat s =
     (let (sign, body) = read_sign (dropWhile is_space s);
          ds = takeWhile is_digit body;
          after = dropWhile is_digit body;
          fs = (case after of c # cs \<Rightarrow> if c = CHR ''.'' then takeWhile is_digit cs else [] | [] \<Rightarrow> [])
      in if take 8 body = ''Infinity'' then (if 0 < sign then PosInfinity else NegInfinity)
         else if ds = [] \<and> fs = [] then NaN
         else Finite (sign * (of_nat (nat_of_digits ds)
                              + of_nat (nat_of_digits fs) / 10 ^ length fs)))"


section \<open>The request executor\<close>

text \<open>
  \<open>makeRequest\<close> issues one HTTP request and returns a promise.  The environment decides
  what happens to a request: after \<open>latency\<close> milliseconds either the connection fails
  (the \<open>error\<close> event, with the error's message) or the whole response has been read
  (the \<open>end\<close> event, with the status code and the body).  A promise is modelled by the
  time at which it settles and the value it settles with: \<open>Inl\<close> a rejection, \<open>Inr\<close> a
  fulfilment.  Computation takes no time on the clock; only awaiting does.
\<close>

datatype error = TransportError string | SyntaxError | FileSystemError string

fun message :: "error \<Rightarrow> string" where
  "message (TransportError m) = m"
| "message SyntaxError = ''Unexpected token''"
| "message (FileSystemError m) = m"

record exchange =
  latency :: nat
  reply :: "string + int \<times> string"

record RequestOutcome =
  statusCode :: int
  duration :: int
  responseSize :: nat
  success :: bool

type_synonym 'a promise = "int \<times> (error + 'a)"

definition makeRequest :: "int \<Rightarrow> exchange \<Rightarrow> RequestOutcome promise" where
  "makeRequest startTime x =
     (let endTime = startTime + int (latency x)
      in (endTime,
          case reply x of
            Inl m \<Rightarrow> Inl (TransportError m)
          | Inr (status, responseData) \<Rightarrow>
              Inr \<lparr>statusCode = status, duration = endTime - startTime,
                   responseSize = length responseData,
                   success = (200 \<le> status \<and> status < 300)\<rparr>))"

text \<open>
  \<open>Promise.all\<close> is rejected as soon as one of its promises is rejected, whatever the
  others are doing, and is fulfilled with all the values, in the order of the promises,
  once every one of them is fulfilled.  \<open>now\<close> is the time of the call: with no promise
  at all it is fulfilled at once.  Of several rejections at the same millisecond the
  one dispatched first is taken.
\<close>

fun earliest :: "int \<times> error \<Rightarrow> (int \<times> error) list \<Rightarrow> int \<times> error" where
  "earliest r [] = r"
| "earliest r (q # qs) = earliest (if fst q < fst r then q else r) qs"

definition rejections :: "'a promise list \<Rightarrow> (int \<times> error) list" where
  "rejections ps = concat (map (\<lambda>p. case snd p of Inl e \<Rightarrow> [(fst p, e)] | Inr v \<Rightarrow> []) ps)"

definition fulfilments :: "'a promise list \<Rightarrow> 'a list" where
  "fulfilments ps = concat (map (\<lambda>p. case snd p of Inl e \<Rightarrow> [] | Inr v \<Rightarrow> [v]) ps)"

definition Promise_all :: "int \<Rightarrow> 'a promise list \<Rightarrow> 'a list promise" where
  "Promise_all now ps =
     (case rejections ps of
        [] \<Rightarrow> (foldl max now (map fst ps), Inr (fulfilments ps))
      | r # rs \<Rightarrow> (fst (earliest r rs), Inl (snd (earliest r rs))))"

section \<open>The batch scheduler\<close>

text \<open>
  The state of one call of \<open>testConcurrentConnections\<close> while its loop runs: the clock,
  the outcomes pushed so far, the number of requests issued so far (the \<open>k\<close>-th request
  of the call has the exchange \<open>env k\<close>), what was written with \<open>console.error\<close>, and,
  for the claims about concurrency, the span of every request issued: the loop variable
  of its group, the time of its dispatch and the time at which it settles.  Texts are
  sequences of bytes (UTF-8).
\<close>

record span =
  group_of :: int
  dispatched :: int
  settled :: int

record run =
  clock :: int
  outcomes :: "RequestOutcome list"
  issued :: nat
  errlog :: "string list"
  spans :: "span list"

definition newline :: string where
  "newline = [CHR 0x0A]"

definition cross_mark :: string where
  "cross_mark = [CHR 0xE2, CHR 0x9D, CHR 0x8C]"

definition batch_error :: "error \<Rightarrow> string" where
  "batch_error e = newline @ cross_mark @ '' Batch error: '' @ message e"

text \<open>One turn of the loop body, for the loop variable \<open>batch\<close>.\<close>

definition run_batch :: "int \<Rightarrow> int \<Rightarrow> (nat \<Rightarrow> exchange) \<Rightarrow> int \<Rightarrow> run \<Rightarrow> run" where
  "run_batch concurrency totalRequests env batch s =
     (let batchSize = min concurrency (totalRequests - batch);
          batchPromises = map (\<lambda>i. makeRequest (clock s) (env (issued s + i))) [0 ..< nat batchSize];
          awaited = Promise_all (clock s) batchPromises;
          s' = s\<lparr>clock := fst awaited,
                 issued := issued s + nat batchSize,
                 spans := spans s @ map (\<lambda>p. \<lparr>group_of = batch, dispatched = clock s, settled = fst p\<rparr>)
                                        batchPromises\<rparr>
      in case snd awaited of
           Inr batchResults \<Rightarrow> s'\<lparr>outcomes := outcomes s @ batchResults\<rparr>
         | Inl e \<Rightarrow> s'\<lparr>errlog := errlog s @ [batch_error e]\<rparr>)"

text \<open>
  The loop \<open>for (let batch = 0; batch < totalRequests; batch += concurrency)\<close>.  With a
  concurrency of zero or less it never ends, so the loop is a partial function: \<open>None\<close>
  is a loop that does not return.
\<close>

partial_function (option) batches :: "int \<Rightarrow> int \<Rightarrow> (nat \<Rightarrow> exchange) \<Rightarrow> int \<Rightarrow> run \<Rightarrow> run option" where
  "batches concurrency totalRequests env batch s =
     (if batch < totalRequests
      then batches concurrency totalRequests env (batch + concurrency)
             (run_batch concurrency totalRequests env batch s)
      else Some s)"

declare batches.simps [code]

subsection \<open>The test result\<close>

record configuration =
  concurrency :: int
  total_requests :: int

record response_times =
  average :: string
  minimum :: string
  maximum :: string

record test_results =
  total_duration :: string
  successful_requests :: nat
  failed_requests :: nat
  success_rate :: string
  requests_per_second :: "int jsnum"
  response_times :: response_times

record batch_test =
  endpoint :: string
  configuration :: configuration
  results :: test_results

text \<open>The statistics computed after the loop, from its outcomes and the two clock readings.\<close>

definition statistics :: "int \<Rightarrow> int \<Rightarrow> RequestOutcome list \<Rightarrow> test_results" where
  "statistics totalRequests totalDuration rs =
     (let successfulRequests = length (filter success rs);
          failedRequests = length rs - successfulRequests;
          durations = map duration rs;
          avgDuration = js_div (of_int (sum_list durations)) (of_nat (length durations));
          minDuration = Math_min durations;
          maxDuration = Math_max durations;
          requestsPerSecond =
            Math_round (js_times (js_div (of_int totalRequests) (of_int totalDuration)) 1000)
      in \<lparr>total_duration = str_int totalDuration @ ''ms'',
          successful_requests = successfulRequests,
          failed_requests = failedRequests,
          success_rate =
            ToString (Math_round (js_times (js_div (of_nat successfulRequests) (of_int totalRequests)) 100))
              @ ''%'',
          requests_per_second = requestsPerSecond,
          response_times =
            \<lparr>average = ToString (Math_round avgDuration) @ ''ms'',
             minimum = ToString minDuration @ ''ms'',
             maximum = ToString maxDuration @ ''ms''\<rparr>\<rparr>)"

section \<open>The tester and its world\<close>

text \<open>
  The entries of \<open>this.results.tests\<close> are objects of three shapes, told apart by their
  \<open>test_name\<close>: the result of a batch run, of the resource sweep and of the load sweep.
\<close>

record load_level =
  load_level :: int
  level_success_rate :: string
  level_requests_per_second :: "int jsnum"
  avg_response_time :: string

record memory_usage_info =
  samples :: nat
  monitoring_duration :: string

record resource_test =
  test_duration :: string
  measurements :: nat
  memory_usage :: memory_usage_info

record load_test =
  load_levels :: "load_level list"

datatype test_entry = Concurrent batch_test | Resource resource_test | LoadIncrease load_test

fun test_name :: "test_entry \<Rightarrow> string" where
  "test_name (Concurrent t) = ''Concurrent Connections Test''"
| "test_name (Resource t) = ''Resource Usage Test''"
| "test_name (LoadIncrease t) = ''Load Increase Test''"

datatype performance = Excellent | Good | NeedsImprovement

datatype scalability = HighlyScalable | Scalable | ModeratelyScalable | LimitedScalability | NoData

record summary =
  total_tests :: nat
  average_requests_per_second :: "int jsnum"
  average_response_time :: string
  overall_performance :: performance
  scalability_rating :: scalability

text \<open>\<open>this.results\<close>; an empty \<open>summary\<close> object is \<open>None\<close>.\<close>

record RunReport =
  timestamp :: string
  tests :: "test_entry list"
  summary :: "summary option"

text \<open>
  What the program reads and writes outside its local variables: the clock, the
  \<open>results\<close> of the one \<open>PerformanceTester\<close>, the lines written with \<open>console.error\<close>,
  the files, and one observation of the run: the paths requested with \<open>makeRequest\<close>.
  Output written with \<open>console.log\<close> and \<open>process.stdout\<close> is not kept.
\<close>

record world =
  now :: int
  this_results :: RunReport
  console_error :: "string list"
  files :: "string \<rightharpoonup> string"
  requested :: "string multiset"

definition push_test :: "test_entry \<Rightarrow> world \<Rightarrow> world" where
  "push_test t w = w\<lparr>this_results := (this_results w)\<lparr>tests := tests (this_results w) @ [t]\<rparr>\<rparr>"

definition schedule :: "int \<Rightarrow> int \<Rightarrow> (nat \<Rightarrow> exchange) \<Rightarrow> int \<Rightarrow> run option" where
  "schedule concurrency' totalRequests env startTime =
     batches concurrency' totalRequests env 0
       \<lparr>clock = startTime, outcomes = [], issued = 0, errlog = [], spans = []\<rparr>"

definition testConcurrentConnections ::
    "string \<Rightarrow> int \<Rightarrow> int \<Rightarrow> (nat \<Rightarrow> exchange) \<Rightarrow> world \<Rightarrow> (batch_test \<times> world) option" where
  "testConcurrentConnections endpoint' concurrency' totalRequests env w =
     (let startTime = now w
      in case schedule concurrency' totalRequests env startTime of
           None \<Rightarrow> None
         | Some s \<Rightarrow>
             let endTime = clock s;
                 totalDuration = endTime - startTime;
                 testResult =
                   \<lparr>endpoint = endpoint',
                    configuration = \<lparr>concurrency = concurrency', total_requests = totalRequests\<rparr>,
                    results = statistics totalRequests totalDuration (outcomes s)\<rparr>
             in Some (testResult,
                      push_test (Concurrent testResult)
                        (w\<lparr>now := endTime,
                           console_error := console_error w @ errlog s,
                           requested := requested w + replicate_mset (issued s) endpoint'\<rparr>)))"

subsection \<open>The sweeps\<close>

text \<open>
  \<open>testMultipleEndpoints\<close>: one batch run per endpoint, with a pause of a second after
  each.  \<open>traffic i\<close> is the environment of the run for the \<open>i\<close>-th endpoint.
\<close>

fun each_endpoint :: "(nat \<Rightarrow> nat \<Rightarrow> exchange) \<Rightarrow> nat \<Rightarrow> string list \<Rightarrow> world \<Rightarrow> world option" where
  "each_endpoint traffic i [] w = Some w"
| "each_endpoint traffic i (e # es) w =
     (case testConcurrentConnections e 50 200 (traffic i) w of
        None \<Rightarrow> None
      | Some (r, w') \<Rightarrow> each_endpoint traffic (Suc i) es (w'\<lparr>now := now w' + 1000\<rparr>))"

definition endpoints :: "string list" where
  "endpoints = [''/api/users'', ''/api/posts'', ''/api/todos'', ''/api/albums'', ''/api/stats'']"

definition testMultipleEndpoints :: "(nat \<Rightarrow> nat \<Rightarrow> exchange) \<Rightarrow> world \<Rightarrow> world option" where
  "testMultipleEndpoints traffic w = each_endpoint traffic 0 endpoints w"

text \<open>
  \<open>JSON.parse\<close> turns its argument into a string and parses that as JSON text; it throws
  a \<open>SyntaxError\<close> when the string is not JSON text.  The recogniser below follows the
  JSON grammar; \<open>fuel\<close> bounds the nesting.  A plain object turns into the string
  \<open>[object Object]\<close>.
\<close>

definition ws :: "string \<Rightarrow> string" where
  "ws s = dropWhile is_space s"

definition is_hex :: "char \<Rightarrow> bool" where
  "is_hex c = (is_digit c \<or> (65 \<le> (of_char c :: nat) \<and> (of_char c :: nat) \<le> 70)
                          \<or> (97 \<le> (of_char c :: nat) \<and> (of_char c :: nat) \<le> 102))"

fun json_chars :: "nat \<Rightarrow> string \<Rightarrow> string option" where
  "json_chars fuel [] = None"
| "json_chars 0 (c # cs) = None"
| "json_chars (Suc fuel) (c # cs) =
     (if c = CHR 0x22 then Some cs
      else if c = CHR 0x5C then
        (case cs of
           [] \<Rightarrow> None
         | e # es \<Rightarrow>
             if e \<in> set [CHR 0x22, CHR 0x5C, CHR ''/'', CHR ''b'', CHR ''f'', CHR ''n'', CHR ''r'', CHR ''t'']
             then json_chars fuel es
             else if e = CHR ''u'' \<and> 4 \<le> length es \<and> list_all is_hex (take 4 es)
             then json_chars fuel (drop 4 es)
             else None)
      else if (of_char c :: nat) < 32 then None
      else json_chars fuel cs)"

definition json_digits :: "string \<Rightarrow> string option" where
  "json_digits s = (if takeWhile is_digit s = [] then None else Some (dropWhile is_digit s))"

definition json_number :: "string \<Rightarrow> string option" where
  "json_number s =
     (let s1 = (case s of c # cs \<Rightarrow> if c = CHR ''-'' then cs else s | [] \<Rightarrow> s);
          s2 = (case s1 of
                  c # cs \<Rightarrow> if c = CHR ''0'' then Some cs else json_digits s1
                | [] \<Rightarrow> None);
          s3 = (case s2 of
                  Some (c # cs) \<Rightarrow> if c = CHR ''.'' then json_digits cs else s2
                | _ \<Rightarrow> s2)
      in case s3 of
           Some (c # cs) \<Rightarrow>
             if c = CHR ''e'' \<or> c = CHR ''E''
             then (case cs of
                     d # ds \<Rightarrow> if d = CHR ''+'' \<or> d = CHR ''-'' then json_digits ds else json_digits cs
                   | [] \<Rightarrow> None)
             else s3
         | _ \<Rightarrow> s3)"

fun json_value :: "nat \<Rightarrow> string \<Rightarrow> string option"
  and json_elements :: "nat \<Rightarrow> string \<Rightarrow> string option"
  and json_members :: "nat \<Rightarrow> string \<Rightarrow> string option" where
  "json_value 0 s = None"
| "json_value (Suc fuel) s =
     (case ws s of
        [] \<Rightarrow> None
      | c # cs \<Rightarrow>
          if c = CHR ''{'' then
            (case ws cs of
               [] \<Rightarrow> None
             | d # ds \<Rightarrow> if d = CHR ''}'' then Some ds else json_members fuel cs)
          else if c = CHR ''['' then
            (case ws cs of
               [] \<Rightarrow> None
             | d # ds \<Rightarrow> if d = CHR '']'' then Some ds else json_elements fuel cs)
          else if c = CHR 0x22 then json_chars (length cs) cs
          else if take 4 (c # cs) = ''true'' then Some (drop 4 (c # cs))
          else if take 5 (c # cs) = ''false'' then Some (drop 5 (c # cs))
          else if take 4 (c # cs) = ''null'' then Some (drop 4 (c # cs))
          else json_number (c # cs))"
| "json_elements 0 s = None"
| "json_elements (Suc fuel) s =
     (case json_value fuel s of
        None \<Rightarrow> None
      | Some r \<Rightarrow>
          (case ws r of
             [] \<Rightarrow> None
           | c # cs \<Rightarrow>
               if c = CHR '','' then json_elements fuel cs
               else if c = CHR '']'' then Some cs
               else None))"
| "json_members 0 s = None"
| "json_members (Suc fuel) s =
     (case ws s of
        [] \<Rightarrow> None
      | q # qs \<Rightarrow>
          if q = CHR 0x22 then
            (case json_chars (length qs) qs of
               None \<Rightarrow> None
             | Some r \<Rightarrow>
                 (case ws r of
                    [] \<Rightarrow> None
                  | c # cs \<Rightarrow>
                      if c = CHR '':'' then
                        (case json_value fuel cs of
                           None \<Rightarrow> None
                         | Some r' \<Rightarrow>
                             (case ws r' of
                                [] \<Rightarrow> None
                              | d # ds \<Rightarrow>
                                  if d = CHR '','' then json_members fuel ds
                                  else if d = CHR ''}'' then Some ds
                                  else None))
                      else None))
          else None)"

definition JSON_parse :: "string \<Rightarrow> error + unit" where
  "JSON_parse text =
     (case json_value (2 * length text + 2) text of
        None \<Rightarrow> Inl SyntaxError
      | Some r \<Rightarrow> if ws r = [] then Inr () else Inl SyntaxError)"

definition object_ToString :: "RequestOutcome \<Rightarrow> string" where
  "object_ToString r = ''[object Object]''"

text \<open>
  \<open>testResourceUsage\<close> runs a batch run and, every second until that run has returned,
  the monitoring callback.  One call of the callback, fired at time \<open>t\<close> with the
  exchanges of its two health requests: it returns the measurement it pushes, if any, with
  the time of the push, and the number of requests it made.  (Of a measurement only the
  \<open>timestamp\<close> is kept; \<open>memory\<close> and \<open>uptime\<close> are readings of the host.)
\<close>

record measurement =
  measured_at :: int

definition monitor :: "int \<Rightarrow> int \<Rightarrow> exchange \<times> exchange \<Rightarrow> (int \<times> measurement) option \<times> nat" where
  "monitor startTime t p =
     (let first = makeRequest t (fst p)
      in case snd first of
           Inl e \<Rightarrow> (None, 1)
         | Inr response \<Rightarrow>
             if success response then
               (let second = makeRequest (fst first) (snd p)
                in case snd second of
                     Inl e \<Rightarrow> (None, 2)
                   | Inr r \<Rightarrow>
                       (case JSON_parse (object_ToString r) of
                          Inl e \<Rightarrow> (None, 2)
                        | Inr healthData \<Rightarrow>
                            (Some (fst second, \<lparr>measured_at = fst second - startTime\<rparr>), 2)))
             else (None, 1))"

definition testResourceUsage ::
    "(nat \<Rightarrow> exchange) \<Rightarrow> (nat \<Rightarrow> exchange \<times> exchange) \<Rightarrow> world \<Rightarrow> (resource_test \<times> world) option" where
  "testResourceUsage load probes w =
     (let duration' = 30000;
          interval = 1000;
          startTime = now w
      in case testConcurrentConnections ''/api/users'' 20 300 load w of
           None \<Rightarrow> None
         | Some (r, w') \<Rightarrow>
             let fired = map (\<lambda>j. monitor startTime (startTime + interval * int j) (probes j))
                             [1 ..< Suc (nat ((now w' - startTime - 1) div interval))];
                 pushed = concat (map (\<lambda>m. case fst m of
                                              None \<Rightarrow> []
                                            | Some (t, x) \<Rightarrow> if t \<le> now w' then [x] else []) fired);
                 resourceTest =
                   \<lparr>test_duration = str_int duration' @ ''ms'',
                    measurements = length pushed,
                    memory_usage = \<lparr>samples = length pushed,
                                    monitoring_duration = str_int (duration' div 1000) @ ''s''\<rparr>\<rparr>
             in Some (resourceTest,
                      push_test (Resource resourceTest)
                        (w'\<lparr>requested := requested w'
                              + replicate_mset (sum_list (map snd fired)) ''/health''\<rparr>)))"

text \<open>\<open>testLoadIncrease\<close>: one batch run per load level, with a pause of two seconds after each.\<close>

fun each_level ::
    "(nat \<Rightarrow> nat \<Rightarrow> exchange) \<Rightarrow> nat \<Rightarrow> int list \<Rightarrow> load_level list \<Rightarrow> world
       \<Rightarrow> (load_level list \<times> world) option" where
  "each_level traffic i [] loadResults w = Some (loadResults, w)"
| "each_level traffic i (load # loads) loadResults w =
     (case testConcurrentConnections ''/api/posts'' load (load * 5) (traffic i) w of
        None \<Rightarrow> None
      | Some (result, w') \<Rightarrow>
          each_level traffic (Suc i) loads
            (loadResults @
               [\<lparr>load_level = load,
                 level_success_rate = success_rate (results result),
                 level_requests_per_second = requests_per_second (results result),
                 avg_response_time = average (response_times (results result))\<rparr>])
            (w'\<lparr>now := now w' + 2000\<rparr>))"

definition loadLevels :: "int list" where
  "loadLevels = [10, 25, 50, 100, 200]"

definition testLoadIncrease :: "(nat \<Rightarrow> nat \<Rightarrow> exchange) \<Rightarrow> world \<Rightarrow> (load_test \<times> world) option" where
  "testLoadIncrease traffic w =
     (case each_level traffic 0 loadLevels [] w of
        None \<Rightarrow> None
      | Some (loadResults, w') \<Rightarrow>
          let loadTest = \<lparr>load_levels = loadResults\<rparr>
          in Some (loadTest, push_test (LoadIncrease loadTest) w'))"

subsection \<open>The report\<close>

definition concurrent_tests :: "test_entry list \<Rightarrow> batch_test list" where
  "concurrent_tests allTests =
     concat (map (\<lambda>t. case t of Concurrent r \<Rightarrow> [r] | _ \<Rightarrow> [])
                 (filter (\<lambda>t. test_name t = ''Concurrent Connections Test'') allTests))"

definition calculateScalabilityRating :: "batch_test list \<Rightarrow> scalability" where
  "calculateScalabilityRating ts =
     (if length ts = 0 then NoData
      else
        let avgSuccessRate =
              js_over (foldl (\<lambda>sum test. js_plus sum (parseFloat (success_rate (results test))))
                             (Finite 0) ts)
                      (of_nat (length ts));
            avgRPS =
              js_over (foldl (\<lambda>sum test. js_plus sum (parseInt (ToString (requests_per_second (results test)))))
                             (Finite 0) ts)
                      (of_nat (length ts))
        in if js_gt avgSuccessRate 95 \<and> js_gt avgRPS 800 then HighlyScalable
           else if js_gt avgSuccessRate 90 \<and> js_gt avgRPS 500 then Scalable
           else if js_gt avgSuccessRate 80 \<and> js_gt avgRPS 200 then ModeratelyScalable
           else LimitedScalability)"

definition generateReport :: "world \<Rightarrow> RunReport \<times> world" where
  "generateReport w =
     (let allTests = tests (this_results w);
          concurrentTests = concurrent_tests allTests;
          w' = (if length concurrentTests > 0 then
                  let avgRPS =
                        js_over (foldl (\<lambda>sum test. js_plus sum (parseInt (ToString (requests_per_second (results test)))))
                                       (Finite 0) concurrentTests)
                                (of_nat (length concurrentTests));
                      avgResponseTime =
                        js_over (foldl (\<lambda>sum test. js_plus sum (parseInt (average (response_times (results test)))))
                                       (Finite 0) concurrentTests)
                                (of_nat (length concurrentTests))
                  in w\<lparr>this_results := (this_results w)
                         \<lparr>summary := Some
                            \<lparr>total_tests = length allTests,
                             average_requests_per_second = Math_round avgRPS,
                             average_response_time = ToString (Math_round avgResponseTime) @ ''ms'',
                             overall_performance =
                               (if js_gt avgRPS 500 then Excellent
                                else if js_gt avgRPS 200 then Good else NeedsImprovement),
                             scalability_rating = calculateScalabilityRating concurrentTests\<rparr>\<rparr>\<rparr>
                else w)
      in (this_results w', w'))"

text \<open>The ratings as the strings the program uses for them.\<close>

fun performance_text :: "performance \<Rightarrow> string" where
  "performance_text Excellent = ''Excellent''"
| "performance_text Good = ''Good''"
| "performance_text NeedsImprovement = ''Needs Improvement''"

fun scalability_text :: "scalability \<Rightarrow> string" where
  "scalability_text HighlyScalable = ''Highly Scalable''"
| "scalability_text Scalable = ''Scalable''"
| "scalability_text ModeratelyScalable = ''Moderately Scalable''"
| "scalability_text LimitedScalability = ''Limited Scalability''"
| "scalability_text NoData = ''No Data''"

definition bullet :: string where
  "bullet = [CHR 0xE2, CHR 0x80, CHR 0xA2]"

text \<open>A field of the summary in a template literal; of the empty summary it is \<open>undefined\<close>.\<close>

definition summary_field :: "summary option \<Rightarrow> (summary \<Rightarrow> string) \<Rightarrow> string" where
  "summary_field s f = (case s of None \<Rightarrow> ''undefined'' | Some x \<Rightarrow> f x)"

text \<open>
  The section of one test.  The conditions of the source look at the fields an entry
  has: a batch run has \<open>endpoint\<close> (shown when it is not the empty string),
  \<open>configuration\<close> and \<open>results\<close>; a load sweep has \<open>load_levels\<close>; a resource sweep has
  none of them.
\<close>

definition format_level :: "load_level \<Rightarrow> string" where
  "format_level level =
     ''  Load '' @ str_int (load_level level) @ '': '' @ level_success_rate level
       @ '' success, '' @ ToString (level_requests_per_second level) @ '' RPS, ''
       @ avg_response_time level @ '' avg'' @ newline"

definition format_test :: "nat \<Rightarrow> test_entry \<Rightarrow> string" where
  "format_test index test =
     replicate 60 (CHR ''-'') @ newline
     @ ''TEST '' @ str_nat (index + 1) @ '': '' @ test_name test @ newline
     @ replicate 60 (CHR ''-'') @ newline
     @ (case test of
          Concurrent t \<Rightarrow>
            (if endpoint t \<noteq> [] then ''Endpoint: '' @ endpoint t @ newline else [])
            @ ''Configuration:'' @ newline
            @ ''  concurrency: '' @ str_int (concurrency (configuration t)) @ newline
            @ ''  total_requests: '' @ str_int (total_requests (configuration t)) @ newline
            @ ''Results:'' @ newline
            @ ''  total_duration: '' @ total_duration (results t) @ newline
            @ ''  successful_requests: '' @ str_nat (successful_requests (results t)) @ newline
            @ ''  failed_requests: '' @ str_nat (failed_requests (results t)) @ newline
            @ ''  success_rate: '' @ success_rate (results t) @ newline
            @ ''  requests_per_second: '' @ ToString (requests_per_second (results t)) @ newline
            @ ''  response_times:'' @ newline
            @ ''    average: '' @ average (response_times (results t)) @ newline
            @ ''    minimum: '' @ minimum (response_times (results t)) @ newline
            @ ''    maximum: '' @ maximum (response_times (results t)) @ newline
        | Resource t \<Rightarrow> []
        | LoadIncrease t \<Rightarrow>
            ''Load Test Results:'' @ newline @ concat (map format_level (load_levels t)))
     @ newline"

text \<open>
  \<open>formatReportAsText\<close> is a method: besides its argument it could read the tester and
  everything else in the world, so the world is an argument of the model.
\<close>

definition formatReportAsText :: "world \<Rightarrow> RunReport \<Rightarrow> string" where
  "formatReportAsText w report =
     replicate 80 (CHR ''='') @ newline
     @ ''                    NODE.JS PERFORMANCE TEST RESULTS'' @ newline
     @ replicate 80 (CHR ''='') @ newline
     @ ''Test Date: '' @ timestamp report @ newline
     @ ''Total Tests: '' @ summary_field (summary report) (\<lambda>s. str_nat (total_tests s)) @ newline
     @ ''Overall Performance: ''
       @ summary_field (summary report) (\<lambda>s. performance_text (overall_performance s)) @ newline
     @ ''Scalability Rating: ''
       @ summary_field (summary report) (\<lambda>s. scalability_text (scalability_rating s)) @ newline
     @ ''Average RPS: ''
       @ summary_field (summary report) (\<lambda>s. ToString (average_requests_per_second s)) @ newline
     @ ''Average Response Time: '' @ summary_field (summary report) average_response_time @ newline
     @ newline
     @ concat (map (\<lambda>(index, test). format_test index test)
                   (zip [0 ..< length (tests report)] (tests report)))
     @ replicate 80 (CHR ''='') @ newline
     @ ''PERFORMANCE ANALYSIS:'' @ newline
     @ replicate 80 (CHR ''='') @ newline
     @ ''Node.js demonstrates excellent scalability characteristics:'' @ newline
     @ bullet @ '' Non-blocking I/O enables high concurrent connection handling'' @ newline
     @ bullet @ '' Event-driven architecture maintains low memory footprint'' @ newline
     @ bullet @ '' Single-threaded event loop efficiently manages requests'' @ newline
     @ bullet @ '' Performance remains stable under increasing load'' @ newline
     @ newline @ ''Recommendations:'' @ newline
     @ bullet @ '' Monitor memory usage during peak loads'' @ newline
     @ bullet @ '' Implement connection pooling for database operations'' @ newline
     @ bullet @ '' Use clustering for CPU-intensive operations'' @ newline
     @ bullet @ '' Consider load balancing for production deployment'' @ newline
     @ newline"

text \<open>
  \<open>saveResults\<close>.  Whether \<open>fs.promises.writeFile\<close> fails is up to the environment:
  \<open>failure\<close> is the message of its error, if it fails.
\<close>

definition writeFile :: "string option \<Rightarrow> string \<Rightarrow> string \<Rightarrow> (string \<rightharpoonup> string) \<Rightarrow> error + (string \<rightharpoonup> string)" where
  "writeFile failure filename content fs =
     (case failure of Some m \<Rightarrow> Inl (FileSystemError m) | None \<Rightarrow> Inr (fs(filename \<mapsto> content)))"

definition save_failed :: "error \<Rightarrow> string" where
  "save_failed e = newline @ cross_mark @ '' Failed to save results: '' @ message e"

definition saveResults :: "string option \<Rightarrow> string \<Rightarrow> world \<Rightarrow> world" where
  "saveResults failure filename w =
     (let (report, w') = generateReport w;
          reportText = formatReportAsText w' report
      in case writeFile failure filename reportText (files w') of
           Inr fs \<Rightarrow> w'\<lparr>files := fs\<rparr>
         | Inl e \<Rightarrow> w'\<lparr>console_error := console_error w' @ [save_failed e]\<rparr>)"

section \<open>The main function\<close>

text \<open>
  Everything the environment decides in one run of the program: the clock and the files
  at its start, the timestamp of the tester, the exchange of every request, and whether
  writing the report fails.
\<close>

record environment =
  boot :: int
  disk :: "string \<rightharpoonup> string"
  started :: string
  health :: exchange
  endpoint_traffic :: "nat \<Rightarrow> nat \<Rightarrow> exchange"
  load_traffic :: "nat \<Rightarrow> exchange"
  probes_traffic :: "nat \<Rightarrow> exchange \<times> exchange"
  level_traffic :: "nat \<Rightarrow> nat \<Rightarrow> exchange"
  write_failure :: "string option"

text \<open>The end of the process: its exit code and the world it leaves.\<close>

record ending =
  exit_code :: nat
  final :: world

definition PerformanceTester :: "environment \<Rightarrow> world" where
  "PerformanceTester env =
     \<lparr>now = boot env,
      this_results = \<lparr>timestamp = started env, tests = [], summary = None\<rparr>,
      console_error = [],
      files = disk env,
      requested = {#}\<rparr>"

text \<open>
  The body of the second \<open>try\<close>: \<open>Inl\<close> is an exception thrown out of it, \<open>None\<close> a body
  that does not return.
\<close>

definition run_tests :: "environment \<Rightarrow> world \<Rightarrow> (error + world) option" where
  "run_tests env w =
     (case testMultipleEndpoints (endpoint_traffic env) w of
        None \<Rightarrow> None
      | Some w1 \<Rightarrow>
          (case testResourceUsage (load_traffic env) (probes_traffic env) w1 of
             None \<Rightarrow> None
           | Some (r, w2) \<Rightarrow>
               (case testLoadIncrease (level_traffic env) w2 of
                  None \<Rightarrow> None
                | Some (l, w3) \<Rightarrow>
                    let (res, w4) = generateReport w3
                    in Some (Inr (saveResults (write_failure env) ''performance-results.txt'' w4)))))"

definition cannot_connect :: "string list" where
  "cannot_connect =
     [cross_mark @ '' Cannot connect to server. Please ensure the server is running on http://localhost:3001'',
      ''   Run: npm start'' @ newline]"

definition tests_failed :: "error \<Rightarrow> string" where
  "tests_failed e = newline @ cross_mark @ '' Performance tests failed: '' @ message e"

definition runPerformanceTests :: "environment \<Rightarrow> ending option" where
  "runPerformanceTests env =
     (let tester = PerformanceTester env;
          probe = makeRequest (now tester) (health env);
          w = tester\<lparr>now := fst probe, requested := requested tester + {#''/health''#}\<rparr>
      in case snd probe of
           Inl e \<Rightarrow>
             Some \<lparr>exit_code = 1, final = w\<lparr>console_error := console_error w @ cannot_connect\<rparr>\<rparr>
         | Inr r \<Rightarrow>
             (case run_tests env w of
                None \<Rightarrow> None
              | Some (Inl e) \<Rightarrow>
                  Some \<lparr>exit_code = 1, final = w\<lparr>console_error := console_error w @ [tests_failed e]\<rparr>\<rparr>
              | Some (Inr w') \<Rightarrow> Some \<lparr>exit_code = 0, final = w'\<rparr>))"

section \<open>Notions used in the claims\<close>

text \<open>
  A request is rejected when its exchange ends in a connection error; otherwise
  \<open>makeRequest\<close> fulfils it with \<open>outcome_of\<close> its exchange, whose duration is the latency
  of the exchange whatever the status code.
\<close>

definition rejected :: "exchange \<Rightarrow> bool" where
  "rejected x = (case reply x of Inl m \<Rightarrow> True | Inr r \<Rightarrow> False)"

definition outcome_of :: "exchange \<Rightarrow> RequestOutcome" where
  "outcome_of x =
     (case reply x of
        Inl m \<Rightarrow> \<lparr>statusCode = 0, duration = int (latency x), responseSize = 0, success = False\<rparr>
      | Inr r \<Rightarrow> \<lparr>statusCode = fst r, duration = int (latency x), responseSize = length (snd r),
                  success = (200 \<le> fst r \<and> fst r < 300)\<rparr>)"

definition none_rejected :: "(nat \<Rightarrow> exchange) \<Rightarrow> nat \<Rightarrow> bool" where
  "none_rejected env n = list_all (\<lambda>k. \<not> rejected (env k)) [0 ..< n]"

text \<open>The requests a turn of the loop issues.\<close>

definition batch_ids :: "int \<Rightarrow> int \<Rightarrow> int \<Rightarrow> run \<Rightarrow> nat list" where
  "batch_ids c N b s = map (\<lambda>i. issued s + i) [0 ..< nat (min c (N - b))]"

text \<open>
  With a concurrency of \<open>c\<close>, request \<open>k\<close> is in the group of the requests \<open>j\<close> with
  \<open>j div c = k div c\<close>.  \<open>group_ok\<close>: no request of the group of \<open>k\<close> is rejected.
  \<open>recorded\<close>: the outcomes of the first \<open>n\<close> requests whose group has no rejection.
\<close>

definition group_ok :: "int \<Rightarrow> int \<Rightarrow> (nat \<Rightarrow> exchange) \<Rightarrow> nat \<Rightarrow> bool" where
  "group_ok c N env k =
     list_all (\<lambda>j. \<not> rejected (env j)) (filter (\<lambda>j. j div nat c = k div nat c) [0 ..< nat N])"

definition recorded :: "int \<Rightarrow> int \<Rightarrow> (nat \<Rightarrow> exchange) \<Rightarrow> nat \<Rightarrow> RequestOutcome list" where
  "recorded c N env n = map (\<lambda>k. outcome_of (env k)) (filter (group_ok c N env) [0 ..< n])"

text \<open>
  The number of requests in flight at time \<open>t\<close>: dispatched at \<open>t\<close> or before and settling
  after \<open>t\<close>.  \<open>sequenced\<close>: every request of an earlier group has settled when a request
  of a later group is dispatched.
\<close>

definition in_flight :: "span list \<Rightarrow> int \<Rightarrow> nat" where
  "in_flight sps t = length (filter (\<lambda>x. dispatched x \<le> t \<and> t < settled x) sps)"

definition sequenced :: "span list \<Rightarrow> bool" where
  "sequenced sps =
     list_all (\<lambda>x. list_all (\<lambda>y. group_of x < group_of y \<longrightarrow> settled x \<le> dispatched y) sps) sps"

text \<open>Invariants of the loop.\<close>

definition counting :: "int \<Rightarrow> int \<Rightarrow> int \<Rightarrow> run \<Rightarrow> bool" where
  "counting c N b s = (int (issued s) = min b N \<and> (\<exists>m::nat. b = c * int m))"

definition timing :: "int \<Rightarrow> int \<Rightarrow> int \<Rightarrow> run \<Rightarrow> bool" where
  "timing c t0 b s =
     ((\<forall>x \<in> set (spans s). settled x \<le> clock s \<and> dispatched x \<le> settled x
                             \<and> t0 \<le> dispatched x \<and> group_of x < b)
      \<and> (spans s = [] \<longrightarrow> clock s = t0)
      \<and> (spans s \<noteq> [] \<longrightarrow> dispatched (hd (spans s)) = t0 \<and> (\<exists>x \<in> set (spans s). settled x = clock s))
      \<and> (\<forall>t. in_flight (spans s) t \<le> nat c)
      \<and> sequenced (spans s))"

text \<open>
  Modelled from the spec's words, to be compared with \<open>calculateScalabilityRating\<close>: the
  classification of a mean success rate and a mean throughput, thresholds in order, first
  match wins; and the mean of a list of numbers.
\<close>

definition spec_scalabilityRating :: "rat jsnum \<Rightarrow> rat jsnum \<Rightarrow> scalability" where
  "spec_scalabilityRating successRate throughput =
     (if js_gt successRate 95 \<and> js_gt throughput 800 then HighlyScalable
      else if js_gt successRate 90 \<and> js_gt throughput 500 then Scalable
      else if js_gt successRate 80 \<and> js_gt throughput 200 then ModeratelyScalable
      else LimitedScalability)"

definition mean :: "rat jsnum list \<Rightarrow> rat jsnum" where
  "mean xs = js_over (foldl js_plus (Finite 0) xs) (of_nat (length xs))"

text \<open>The success rate and the throughput of a batch test, as the report reads them.\<close>

definition rate_of :: "batch_test \<Rightarrow> rat jsnum" where
  "rate_of t = parseFloat (success_rate (results t))"

definition throughput_of :: "batch_test \<Rightarrow> rat jsnum" where
  "throughput_of t = parseInt (ToString (requests_per_second (results t)))"

section \<open>Concrete inputs\<close>

text \<open>
  A world at time 0 with an empty report, an exchange that ends in a connection error
  after \<open>ms\<close> milliseconds, and one that is answered after \<open>ms\<close> milliseconds with a
  status code and a body of two characters.
\<close>

definition fresh :: world where
  "fresh = \<lparr>now = 0,
            this_results = \<lparr>timestamp = ''2024-01-01T00:00:00.000Z'', tests = [], summary = None\<rparr>,
            console_error = [], files = Map.empty, requested = {#}\<rparr>"

definition refused :: "nat \<Rightarrow> exchange" where
  "refused ms = \<lparr>latency = ms, reply = Inl ''connect ECONNREFUSED''\<rparr>"

definition answered :: "nat \<Rightarrow> int \<Rightarrow> exchange" where
  "answered ms status = \<lparr>latency = ms, reply = Inr (status, ''{}'')\<rparr>"

text \<open>The counts of a batch test result: successes, failures, total requests.\<close>

definition counts :: "batch_test \<Rightarrow> nat \<times> nat \<times> int" where
  "counts t = (successful_requests (results t), failed_requests (results t),
               total_requests (configuration t))"


text \<open>A batch test result with a given success rate and throughput.\<close>

definition rated :: "string \<Rightarrow> int \<Rightarrow> batch_test" where
  "rated rate rps =
     \<lparr>endpoint = ''/api/users'',
      configuration = \<lparr>concurrency = 50, total_requests = 200\<rparr>,
      results = \<lparr>total_duration = ''222ms'', successful_requests = 190, failed_requests = 10,
                 success_rate = rate, requests_per_second = Finite rps,
                 response_times = \<lparr>average = ''50ms'', minimum = ''10ms'', maximum = ''90ms''\<rparr>\<rparr>\<rparr>"

text \<open>An environment in which every request is answered with status 200 after 10 ms.\<close>

definition quiet :: environment where
  "quiet = \<lparr>boot = 0, disk = Map.empty, started = ''2024-01-01T00:00:00.000Z'',
            health = answered 10 200,
            endpoint_traffic = (\<lambda>i k. answered 10 200),
            load_traffic = (\<lambda>k. answered 10 200),
            probes_traffic = (\<lambda>j. (answered 10 200, answered 10 200)),
            level_traffic = (\<lambda>i k. answered 10 200),
            write_failure = None\<rparr>"

section \<open>The loop of the scheduler\<close>

lemma batches_returns:
  "0 < c \<Longrightarrow> \<exists>s'. batches c N env b s = Some s'"
proof (induction "nat (N - b)" arbitrary: b s rule: less_induct)
  case less
  show ?case
  proof (cases "b < N")
    case True
    then have "nat (N - (b + c)) < nat (N - b)" using less.prems by simp
    from less.hyps[OF this less.prems] show ?thesis
      using True by (subst batches.simps) simp
  next
    case False
    then show ?thesis by (subst batches.simps) simp
  qed
qed

lemma batches_invariant:
  assumes ret: "batches c N env b s = Some s'"
    and init: "I b s"
    and step: "\<And>b s. b < N \<Longrightarrow> I b s \<Longrightarrow> I (b + c) (run_batch c N env b s)"
  shows "\<exists>b'. N \<le> b' \<and> I b' s'"
proof -
  have "c = c \<longrightarrow> N = N \<longrightarrow> env = env \<longrightarrow> I b s \<longrightarrow> (\<exists>b'. N \<le> b' \<and> I b' s')"
  proof (rule batches.raw_induct
      [where P = "\<lambda>c' N' env' b s y. c' = c \<longrightarrow> N' = N \<longrightarrow> env' = env \<longrightarrow> I b s \<longrightarrow> (\<exists>b'. N \<le> b' \<and> I b' y)",
        OF _ ret])
    fix f c' N' env' b s y
    assume IH: "\<And>N' env' b s c' y. f N' env' b s c' = Some y \<Longrightarrow>
        N' = c \<longrightarrow> env' = N \<longrightarrow> b = env \<longrightarrow> I s c' \<longrightarrow> (\<exists>b'. N \<le> b' \<and> I b' y)"
      and body: "(if b < N' then f c' N' env' (b + c') (run_batch c' N' env' b s) else Some s) = Some y"
    show "c' = c \<longrightarrow> N' = N \<longrightarrow> env' = env \<longrightarrow> I b s \<longrightarrow> (\<exists>b'. N \<le> b' \<and> I b' y)"
    proof (intro impI)
      assume eqs: "c' = c" "N' = N" "env' = env" and Ib: "I b s"
      show "\<exists>b'. N \<le> b' \<and> I b' y"
      proof (cases "b < N")
        case True
        with body eqs have "f c N env (b + c) (run_batch c N env b s) = Some y" by simp
        from IH[OF this] step[OF True Ib] show ?thesis by simp
      next
        case False
        with body eqs have "y = s" by simp
        with False Ib show ?thesis by (intro exI[of _ b]) simp
      qed
    qed
  qed
  with init show ?thesis by simp
qed

lemma batches_diverges:
  assumes "batches c N env b s = Some y" shows "\<not> (c \<le> 0 \<and> b < N)"
proof
  assume a: "c \<le> 0 \<and> b < N"
  have "\<exists>b'. N \<le> b' \<and> (c \<le> 0 \<and> b' < N)"
    by (rule batches_invariant[OF assms, where I = "\<lambda>b s. c \<le> 0 \<and> b < N"]) (use a in auto)
  then show False by auto
qed



lemma makeRequest_time [simp]: "fst (makeRequest t x) = t + int (latency x)"
  by (simp add: makeRequest_def Let_def)

lemma makeRequest_rejected: "rejected x \<Longrightarrow> \<exists>e. snd (makeRequest t x) = Inl e"
  by (auto simp: makeRequest_def rejected_def Let_def split: sum.splits)

lemma makeRequest_fulfilled: "\<not> rejected x \<Longrightarrow> snd (makeRequest t x) = Inr (outcome_of x)"
  by (auto simp: makeRequest_def rejected_def outcome_of_def Let_def split: sum.splits prod.splits)

lemma rejections_Nil_iff:
  "rejections (map (\<lambda>k. makeRequest t (env k)) ks) = [] \<longleftrightarrow> (\<forall>k \<in> set ks. \<not> rejected (env k))"
proof (induction ks)
  case Nil
  show ?case by (simp add: rejections_def)
next
  case (Cons k ks)
  show ?case
  proof (cases "rejected (env k)")
    case True
    then obtain e where "snd (makeRequest t (env k)) = Inl e" using makeRequest_rejected by blast
    with True show ?thesis by (simp add: rejections_def)
  next
    case False
    with Cons makeRequest_fulfilled[OF False, of t] show ?thesis by (simp add: rejections_def)
  qed
qed

lemma fulfilments_all:
  "\<forall>k \<in> set ks. \<not> rejected (env k) \<Longrightarrow>
     fulfilments (map (\<lambda>k. makeRequest t (env k)) ks) = map (\<lambda>k. outcome_of (env k)) ks"
  by (induction ks) (simp_all add: fulfilments_def makeRequest_fulfilled)

lemma foldl_max_ge: "(a::int) \<le> foldl max a xs"
proof (induction xs arbitrary: a)
  case Nil show ?case by simp
next
  case (Cons x xs)
  have "a \<le> max a x" by simp
  also have "\<dots> \<le> foldl max (max a x) xs" by (rule Cons.IH)
  finally show ?case by simp
qed

lemma foldl_max_mem: "(x::int) \<in> set xs \<Longrightarrow> x \<le> foldl max a xs"
proof (induction xs arbitrary: a)
  case Nil then show ?case by simp
next
  case (Cons y ys)
  show ?case
  proof (cases "x = y")
    case True
    have "x \<le> max a y" using True by simp
    also have "\<dots> \<le> foldl max (max a y) ys" by (rule foldl_max_ge)
    finally show ?thesis by simp
  next
    case False
    with Cons.prems have "x \<in> set ys" by simp
    from Cons.IH[OF this] show ?thesis by simp
  qed
qed

lemma foldl_max_attained: "foldl max (a::int) xs = a \<or> foldl max a xs \<in> set xs"
proof (induction xs arbitrary: a)
  case Nil show ?case by simp
next
  case (Cons y ys)
  from Cons.IH[of "max a y"] show ?case by (auto simp: max_def split: if_splits)
qed

lemma Promise_all_fulfilled:
  "rejections ps = [] \<Longrightarrow> Promise_all t ps = (foldl max t (map fst ps), Inr (fulfilments ps))"
  by (simp add: Promise_all_def)

lemma Promise_all_rejected:
  "rejections ps \<noteq> [] \<Longrightarrow> \<exists>e. snd (Promise_all t ps) = Inl e"
  by (cases "rejections ps") (simp_all add: Promise_all_def)

lemma batch_ids_upt: "batch_ids c N b s = [issued s ..< issued s + nat (min c (N - b))]"
proof -
  have "map ((+) (issued s)) [0 ..< nat (min c (N - b))] = map (\<lambda>i. i + issued s) [0 ..< nat (min c (N - b))]"
    by (simp add: add.commute)
  then show ?thesis by (simp add: batch_ids_def map_add_upt add.commute)
qed

lemma run_batch_issued: "issued (run_batch c N env b s) = issued s + nat (min c (N - b))"
  by (simp add: run_batch_def Let_def split: sum.splits)

lemma run_batch_spans:
  "spans (run_batch c N env b s) =
     spans s @ map (\<lambda>k. \<lparr>group_of = b, dispatched = clock s, settled = clock s + int (latency (env k))\<rparr>)
                   (batch_ids c N b s)"
  by (simp add: run_batch_def Let_def batch_ids_def comp_def split: sum.splits)

lemma run_batch_outcomes_ok:
  assumes "\<forall>k \<in> set (batch_ids c N b s). \<not> rejected (env k)"
  shows "outcomes (run_batch c N env b s) = outcomes s @ map (\<lambda>k. outcome_of (env k)) (batch_ids c N b s)"
    and "clock (run_batch c N env b s) = foldl max (clock s) (map (\<lambda>k. clock s + int (latency (env k))) (batch_ids c N b s))"
    and "errlog (run_batch c N env b s) = errlog s"
proof -
  let ?ps = "map (\<lambda>k. makeRequest (clock s) (env k)) (batch_ids c N b s)"
  have ps: "map (\<lambda>i. makeRequest (clock s) (env (issued s + i))) [0 ..< nat (min c (N - b))] = ?ps"
    by (simp add: batch_ids_def comp_def)
  have "rejections ?ps = []" using assms by (simp add: rejections_Nil_iff)
  then have pa: "Promise_all (clock s) ?ps = (foldl max (clock s) (map fst ?ps), Inr (fulfilments ?ps))"
    by (rule Promise_all_fulfilled)
  have f: "fulfilments ?ps = map (\<lambda>k. outcome_of (env k)) (batch_ids c N b s)"
    using assms by (rule fulfilments_all)
  show "outcomes (run_batch c N env b s) = outcomes s @ map (\<lambda>k. outcome_of (env k)) (batch_ids c N b s)"
    unfolding run_batch_def Let_def ps pa by (simp add: f)
  show "clock (run_batch c N env b s) = foldl max (clock s) (map (\<lambda>k. clock s + int (latency (env k))) (batch_ids c N b s))"
    unfolding run_batch_def Let_def ps pa by (simp add: comp_def)
  show "errlog (run_batch c N env b s) = errlog s"
    unfolding run_batch_def Let_def ps pa by simp
qed

lemma run_batch_outcomes_rejected:
  assumes "\<exists>k \<in> set (batch_ids c N b s). rejected (env k)"
  shows "outcomes (run_batch c N env b s) = outcomes s"
    and "length (errlog (run_batch c N env b s)) = Suc (length (errlog s))"
proof -
  let ?ps = "map (\<lambda>k. makeRequest (clock s) (env k)) (batch_ids c N b s)"
  have ps: "map (\<lambda>i. makeRequest (clock s) (env (issued s + i))) [0 ..< nat (min c (N - b))] = ?ps"
    by (simp add: batch_ids_def comp_def)
  have "rejections ?ps \<noteq> []" using assms by (simp add: rejections_Nil_iff)
  then obtain e where pa: "snd (Promise_all (clock s) ?ps) = Inl e"
    using Promise_all_rejected by blast
  show "outcomes (run_batch c N env b s) = outcomes s"
    unfolding run_batch_def Let_def ps by (simp add: pa)
  show "length (errlog (run_batch c N env b s)) = Suc (length (errlog s))"
    unfolding run_batch_def Let_def ps by (simp add: pa)
qed

lemma counting_step:
  assumes c: "0 < c" and b: "b < N" and I: "counting c N b s"
  shows "counting c N (b + c) (run_batch c N env b s)"
proof -
  from I obtain m :: nat where m: "b = c * int m" and iss: "int (issued s) = min b N"
    by (auto simp: counting_def)
  have "b + c = c * int (Suc m)" using m by (simp add: algebra_simps)
  moreover have "int (issued (run_batch c N env b s)) = min (b + c) N"
    using iss b c by (simp add: run_batch_issued min_def)
  ultimately show ?thesis unfolding counting_def by blast
qed

lemma div_eq_iff_range:
  fixes C :: nat assumes "0 < C"
  shows "j div C = m \<longleftrightarrow> C * m \<le> j \<and> j < C * m + C"
proof
  assume "j div C = m"
  have "j mod C < C" using assms by simp
  moreover have "C * m + j mod C = j" using \<open>j div C = m\<close> by auto
  ultimately show "C * m \<le> j \<and> j < C * m + C" by linarith
next
  assume "C * m \<le> j \<and> j < C * m + C"
  then show "j div C = m"
    using assms by (intro div_nat_eqI) (simp_all add: mult.commute)
qed

lemma block_members:
  assumes c: "0 < c" and b: "b < N" and I: "counting c N b s"
    and k: "k \<in> set (batch_ids c N b s)"
  shows "k < nat N" and "c * int (k div nat c) = b"
    and "filter (\<lambda>j. j div nat c = k div nat c) [0 ..< nat N] = batch_ids c N b s"
proof -
  from I obtain m :: nat where m: "b = c * int m" and iss: "int (issued s) = min b N"
    by (auto simp: counting_def)
  define C where "C = nat c"
  define n where "n = nat N"
  define B where "B = C * m"
  have C: "0 < C" "c = int C" using c by (simp_all add: C_def)
  have bm: "b = int B" using m C by (simp add: B_def)
  have N: "N = int n" using b bm by (simp add: n_def)
  have lt: "B < n" using b bm N by simp
  have iB: "issued s = B" using iss b bm by simp
  have "min c (N - b) = int (min C (n - B))"
    using lt unfolding C N bm min_def by auto
  then have sz: "nat (min c (N - b)) = min C (n - B)" by simp
  from k have kr: "B \<le> k" "k < B + min C (n - B)"
    by (simp_all add: batch_ids_upt iB sz)
  then have kC: "k < B + C" and kN: "k < n" using lt by auto
  show "k < nat N" using kN by (simp add: n_def)
  have kd: "k div C = m"
    using kr(1) kC C(1) by (simp add: div_eq_iff_range B_def)
  have kd': "k div nat c = m" using kd unfolding C_def .
  show "c * int (k div nat c) = b" unfolding kd' m ..
  have "filter (\<lambda>j. j div C = m) [0 ..< n] = filter (\<lambda>j. B \<le> j \<and> j < B + C) [0 ..< n]"
    using C(1) by (simp add: div_eq_iff_range B_def)
  also have "\<dots> = [B ..< min n (B + C)]"
    by (rule sorted_distinct_set_unique) (auto simp: sorted_wrt_filter)
  also have "min n (B + C) = B + min C (n - B)" using lt unfolding min_def by auto
  finally have "filter (\<lambda>j. j div C = m) [0 ..< n] = [B ..< B + min C (n - B)]" .
  then show "filter (\<lambda>j. j div nat c = k div nat c) [0 ..< nat N] = batch_ids c N b s"
    unfolding kd' batch_ids_upt iB sz by (simp only: C_def n_def)
qed

lemma groups_step:
  assumes c: "0 < c" and b: "b < N" and I: "counting c N b s"
    and G: "map group_of (spans s) = map (\<lambda>k. c * int (k div nat c)) [0 ..< issued s]"
  shows "map group_of (spans (run_batch c N env b s)) =
         map (\<lambda>k. c * int (k div nat c)) [0 ..< issued (run_batch c N env b s)]"
proof -
  have split: "[0 ..< issued s + nat (min c (N - b))] = [0 ..< issued s] @ batch_ids c N b s"
    using upt_add_eq_append[of 0 "issued s" "nat (min c (N - b))"] by (simp add: batch_ids_upt)
  have "map (\<lambda>k. c * int (k div nat c)) (batch_ids c N b s) = map (\<lambda>k. b) (batch_ids c N b s)"
    by (rule map_cong[OF refl]) (rule block_members(2)[OF c b I])
  then show ?thesis
    by (simp add: run_batch_spans run_batch_issued split G comp_def)
qed

lemma group_ok_block:
  assumes c: "0 < c" and b: "b < N" and I: "counting c N b s"
    and k: "k \<in> set (batch_ids c N b s)"
  shows "group_ok c N env k \<longleftrightarrow> (\<forall>j \<in> set (batch_ids c N b s). \<not> rejected (env j))"
  unfolding group_ok_def block_members(3)[OF c b I k] by (simp add: list_all_iff)

lemma recorded_step:
  assumes c: "0 < c" and b: "b < N" and I: "counting c N b s"
    and R: "outcomes s = recorded c N env (issued s)"
  shows "outcomes (run_batch c N env b s) = recorded c N env (issued (run_batch c N env b s))"
proof -
  let ?ids = "batch_ids c N b s"
  have split: "[0 ..< issued s + nat (min c (N - b))] = [0 ..< issued s] @ ?ids"
    using upt_add_eq_append[of 0 "issued s" "nat (min c (N - b))"] by (simp add: batch_ids_upt)
  show ?thesis
  proof (cases "\<forall>j \<in> set ?ids. \<not> rejected (env j)")
    case True
    then have "filter (group_ok c N env) ?ids = ?ids"
      using group_ok_block[OF c b I] by (simp add: filter_id_conv)
    then show ?thesis
      by (simp add: run_batch_outcomes_ok(1)[OF True] run_batch_issued split recorded_def R)
  next
    case False
    then have "filter (group_ok c N env) ?ids = []"
      using group_ok_block[OF c b I] by (simp add: filter_empty_conv)
    moreover from False have "\<exists>k \<in> set ?ids. rejected (env k)" by simp
    ultimately show ?thesis
      by (simp add: run_batch_outcomes_rejected(1) run_batch_issued split recorded_def R)
  qed
qed

lemma in_flight_append: "in_flight (xs @ ys) t = in_flight xs t + in_flight ys t"
  by (simp add: in_flight_def)

lemma in_flight_le_length: "in_flight xs t \<le> length xs"
  by (simp add: in_flight_def)

lemma in_flight_settled: "\<forall>x \<in> set xs. settled x \<le> t \<Longrightarrow> in_flight xs t = 0"
  by (auto simp: in_flight_def filter_empty_conv)

lemma in_flight_not_dispatched: "\<forall>x \<in> set xs. t < dispatched x \<Longrightarrow> in_flight xs t = 0"
  by (auto simp: in_flight_def filter_empty_conv)

lemma sequenced_iff:
  "sequenced sps \<longleftrightarrow> (\<forall>x \<in> set sps. \<forall>y \<in> set sps. group_of x < group_of y \<longrightarrow> settled x \<le> dispatched y)"
  by (simp add: sequenced_def list_all_iff)

lemma timing_step:
  assumes c: "0 < c" and b: "b < N" and I: "counting c N b s"
    and ok: "none_rejected env (nat N)"
    and T: "timing c t0 b s"
  shows "timing c t0 (b + c) (run_batch c N env b s)"
proof -
  let ?ids = "batch_ids c N b s"
  let ?new = "map (\<lambda>k. \<lparr>group_of = b, dispatched = clock s, settled = clock s + int (latency (env k))\<rparr>) ?ids"
  let ?s' = "run_batch c N env b s"
  have idsok: "\<forall>k \<in> set ?ids. \<not> rejected (env k)"
    using ok block_members(1)[OF c b I] by (simp add: none_rejected_def list_all_iff)
  have sp: "spans ?s' = spans s @ ?new" by (rule run_batch_spans)
  have cl: "clock ?s' = foldl max (clock s) (map settled ?new)"
    by (simp add: run_batch_outcomes_ok(2)[OF idsok] comp_def)
  have ge: "clock s \<le> clock ?s'" unfolding cl by (rule foldl_max_ge)
  have newle: "\<forall>x \<in> set ?new. settled x \<le> clock ?s'"
    unfolding cl using foldl_max_mem[of _ "map settled ?new" "clock s"] by auto
  have newd: "\<forall>x \<in> set ?new. dispatched x = clock s \<and> group_of x = b \<and> clock s \<le> settled x"
    by auto
  have lennew: "length ?new \<le> nat c" by (simp add: batch_ids_def)
  from T have old: "\<forall>x \<in> set (spans s). settled x \<le> clock s \<and> dispatched x \<le> settled x
                                       \<and> t0 \<le> dispatched x \<and> group_of x < b"
    and e: "spans s = [] \<longrightarrow> clock s = t0"
    and ne: "spans s \<noteq> [] \<longrightarrow> dispatched (hd (spans s)) = t0 \<and> (\<exists>x \<in> set (spans s). settled x = clock s)"
    and fl: "\<forall>t. in_flight (spans s) t \<le> nat c"
    and sq: "sequenced (spans s)"
    by (simp_all add: timing_def)
  have t0le: "t0 \<le> clock s"
  proof (cases "spans s = []")
    case True with e show ?thesis by simp
  next
    case False
    with ne obtain x where "x \<in> set (spans s)" "settled x = clock s" by blast
    then show ?thesis using old by force
  qed
  have 1: "\<forall>x \<in> set (spans ?s'). settled x \<le> clock ?s' \<and> dispatched x \<le> settled x
                                 \<and> t0 \<le> dispatched x \<and> group_of x < b + c"
  proof
    fix x assume "x \<in> set (spans ?s')"
    then consider "x \<in> set (spans s)" | "x \<in> set ?new" unfolding sp by auto
    then show "settled x \<le> clock ?s' \<and> dispatched x \<le> settled x \<and> t0 \<le> dispatched x \<and> group_of x < b + c"
    proof cases
      case 1 with old ge c show ?thesis by force
    next
      case 2 with newle newd t0le c show ?thesis by force
    qed
  qed
  have 2: "spans ?s' = [] \<longrightarrow> clock ?s' = t0"
    using e unfolding sp cl by auto
  have 3: "spans ?s' \<noteq> [] \<longrightarrow> dispatched (hd (spans ?s')) = t0 \<and> (\<exists>x \<in> set (spans ?s'). settled x = clock ?s')"
  proof
    assume nn: "spans ?s' \<noteq> []"
    have h: "dispatched (hd (spans ?s')) = t0"
    proof (cases "spans s = []")
      case True
      with nn have "?new \<noteq> []" unfolding sp by simp
      then have "hd ?new \<in> set ?new" by (rule hd_in_set)
      with newd have "dispatched (hd ?new) = clock s" by blast
      with True e show ?thesis unfolding sp by simp
    next
      case False
      with ne show ?thesis unfolding sp by simp
    qed
    have ex: "\<exists>x \<in> set (spans ?s'). settled x = clock ?s'"
    proof (cases "clock ?s' \<in> set (map settled ?new)")
      case True
      then have "\<exists>x \<in> set ?new. settled x = clock ?s'"
        unfolding set_map by (metis (no_types, lifting) imageE)
      then obtain x where xn: "x \<in> set ?new" and xs: "settled x = clock ?s'" by blast
      from xn have "x \<in> set (spans s @ ?new)" by (simp only: set_append Un_iff simp_thms)
      with xs show ?thesis unfolding sp by blast
    next
      case False
      with foldl_max_attained[of "clock s" "map settled ?new"] have eq: "clock ?s' = clock s"
        unfolding cl by auto
      show ?thesis
      proof (cases "spans s = []")
        case True
        with nn have "?new \<noteq> []" unfolding sp by simp
        then have m: "hd ?new \<in> set ?new" by (rule hd_in_set)
        with newd newle have "settled (hd ?new) = clock ?s'" unfolding eq by force
        with m show ?thesis unfolding sp by auto
      next
        case False
        with ne obtain x where "x \<in> set (spans s)" "settled x = clock s" by blast
        then show ?thesis unfolding sp eq by auto
      qed
    qed
    from h ex show "dispatched (hd (spans ?s')) = t0 \<and> (\<exists>x \<in> set (spans ?s'). settled x = clock ?s')" ..
  qed
  have 4: "\<forall>t. in_flight (spans ?s') t \<le> nat c"
  proof
    fix t
    show "in_flight (spans ?s') t \<le> nat c"
    proof (cases "t < clock s")
      case True
      then have "in_flight ?new t = 0" by (intro in_flight_not_dispatched) simp
      with fl show ?thesis unfolding sp in_flight_append by simp
    next
      case False
      with old have "in_flight (spans s) t = 0" by (intro in_flight_settled) force
      moreover have "in_flight ?new t \<le> nat c"
        using in_flight_le_length[of ?new t] lennew by linarith
      ultimately show ?thesis unfolding sp in_flight_append by simp
    qed
  qed
  have 5: "sequenced (spans ?s')"
    unfolding sequenced_iff
  proof (intro ballI impI)
    fix x y assume x: "x \<in> set (spans ?s')" and y: "y \<in> set (spans ?s')"
      and lt: "group_of x < group_of y"
    from x consider (xo) "x \<in> set (spans s)" | (xn) "x \<in> set ?new" unfolding sp by auto
    then show "settled x \<le> dispatched y"
    proof cases
      case xo
      from y consider (yo) "y \<in> set (spans s)" | (yn) "y \<in> set ?new" unfolding sp by auto
      then show ?thesis
      proof cases
        case yo with xo sq lt show ?thesis unfolding sequenced_iff by blast
      next
        case yn with xo old newd show ?thesis by force
      qed
    next
      case xn
      from y consider (yo) "y \<in> set (spans s)" | (yn) "y \<in> set ?new" unfolding sp by auto
      then show ?thesis
      proof cases
        case yo with xn old newd lt show ?thesis by force
      next
        case yn with xn newd lt show ?thesis by force
      qed
    qed
  qed
  show ?thesis unfolding timing_def by (intro conjI 1 2 3 4 5)
qed

section \<open>What a call of the scheduler returns\<close>


lemma schedule_returns: "0 < c \<Longrightarrow> \<exists>s. schedule c N env t0 = Some s"
  unfolding schedule_def by (rule batches_returns)

lemma schedule_diverges: "c \<le> 0 \<Longrightarrow> 0 < N \<Longrightarrow> schedule c N env t0 = None"
proof (rule ccontr)
  assume c: "c \<le> 0" and N: "0 < N" and "schedule c N env t0 \<noteq> None"
  then obtain y where "batches c N env 0 \<lparr>clock = t0, outcomes = [], issued = 0, errlog = [], spans = []\<rparr> = Some y"
    unfolding schedule_def by auto
  from batches_diverges[OF this] c N show False by simp
qed

lemma schedule_nothing:
  "N \<le> 0 \<Longrightarrow> schedule c N env t0 = Some \<lparr>clock = t0, outcomes = [], issued = 0, errlog = [], spans = []\<rparr>"
  unfolding schedule_def by (subst batches.simps) simp

lemma schedule_positive:
  assumes "schedule c N env t0 = Some s" and "0 < N"
  shows "0 < c"
  using schedule_diverges[of c N env t0] assms by force

lemma schedule_facts:
  assumes ret: "schedule c N env t0 = Some s"
  shows "issued s = nat N"
    and "map group_of (spans s) = map (\<lambda>k. c * int (k div nat c)) [0 ..< nat N]"
    and "outcomes s = recorded c N env (nat N)"
proof -
  let ?I = "\<lambda>b s. counting c N b s
              \<and> map group_of (spans s) = map (\<lambda>k. c * int (k div nat c)) [0 ..< issued s]
              \<and> outcomes s = recorded c N env (issued s)"
  have all: "issued s = nat N
      \<and> map group_of (spans s) = map (\<lambda>k. c * int (k div nat c)) [0 ..< nat N]
      \<and> outcomes s = recorded c N env (nat N)"
  proof (cases "N \<le> 0")
    case True
    with ret schedule_nothing[OF True, of c env t0] show ?thesis
      by (auto simp: recorded_def)
  next
    case False
    then have c: "0 < c" using schedule_positive[OF ret] by simp
    from ret have b: "batches c N env 0 \<lparr>clock = t0, outcomes = [], issued = 0, errlog = [], spans = []\<rparr> = Some s"
      by (simp add: schedule_def)
    have init: "?I 0 \<lparr>clock = t0, outcomes = [], issued = 0, errlog = [], spans = []\<rparr>"
      using False by (simp add: counting_def recorded_def)
    have "\<exists>b'. N \<le> b' \<and> ?I b' s"
    proof (rule batches_invariant[OF b, where I = ?I, OF init])
      fix b s assume "b < N" and "?I b s"
      then show "?I (b + c) (run_batch c N env b s)"
        using counting_step[OF c, of b N s env] groups_step[OF c, of b N s env]
          recorded_step[OF c, of b N s env] by blast
    qed
    then obtain b' where b': "N \<le> b'" and I: "?I b' s" by blast
    from I b' have "int (issued s) = N" by (simp add: counting_def)
    then have "issued s = nat N" by simp
    with I show ?thesis by simp
  qed
  from all show "issued s = nat N" by simp
  from all show "map group_of (spans s) = map (\<lambda>k. c * int (k div nat c)) [0 ..< nat N]" by simp
  from all show "outcomes s = recorded c N env (nat N)" by simp
qed

lemma schedule_timing:
  assumes ret: "schedule c N env t0 = Some s"
    and ok: "none_rejected env (nat N)"
  shows "\<exists>b. timing c t0 b s"
proof (cases "N \<le> 0")
  case True
  with ret schedule_nothing[OF True, of c env t0] have "timing c t0 0 s"
    by (auto simp: timing_def in_flight_def sequenced_def)
  then show ?thesis ..
next
  case False
  then have c: "0 < c" using schedule_positive[OF ret] by simp
  let ?I = "\<lambda>b s. counting c N b s \<and> timing c t0 b s"
  from ret have b: "batches c N env 0 \<lparr>clock = t0, outcomes = [], issued = 0, errlog = [], spans = []\<rparr> = Some s"
    by (simp add: schedule_def)
  have init: "?I 0 \<lparr>clock = t0, outcomes = [], issued = 0, errlog = [], spans = []\<rparr>"
    using False by (simp add: counting_def timing_def in_flight_def sequenced_def)
  have "\<exists>b'. N \<le> b' \<and> ?I b' s"
  proof (rule batches_invariant[OF b, where I = ?I, OF init])
    fix b s assume "b < N" and "?I b s"
    then show "?I (b + c) (run_batch c N env b s)"
      using counting_step[OF c, of b N s env] timing_step[OF c _ _ ok, of b s t0] by blast
  qed
  then show ?thesis by blast
qed

lemma recorded_all:
  assumes "none_rejected env (nat N)"
  shows "recorded c N env (nat N) = map (\<lambda>k. outcome_of (env k)) [0 ..< nat N]"
proof -
  have "\<And>k. k < nat N \<Longrightarrow> group_ok c N env k"
    using assms by (auto simp: group_ok_def none_rejected_def list_all_iff)
  then have "filter (group_ok c N env) [0 ..< nat N] = [0 ..< nat N]"
    by (simp add: filter_id_conv)
  then show ?thesis by (simp add: recorded_def)
qed

lemma statistics_counts:
  "successful_requests (statistics N d rs) + failed_requests (statistics N d rs) = length rs"
  by (simp add: statistics_def Let_def)

lemma tcc_result:
  assumes "testConcurrentConnections ep c N env w = Some (r, w')"
  obtains s where "schedule c N env (now w) = Some s"
    and "r = \<lparr>endpoint = ep, configuration = \<lparr>concurrency = c, total_requests = N\<rparr>,
              results = statistics N (clock s - now w) (outcomes s)\<rparr>"
    and "w' = push_test (Concurrent r)
                (w\<lparr>now := clock s, console_error := console_error w @ errlog s,
                   requested := requested w + replicate_mset (issued s) ep\<rparr>)"
  using assms by (auto simp: testConcurrentConnections_def Let_def split: option.splits)

lemma tcc_returns:
  assumes "0 < c"
  obtains r w' where "testConcurrentConnections ep c N env w = Some (r, w')"
proof -
  from schedule_returns[OF assms, of N env "now w"] obtain s where "schedule c N env (now w) = Some s" ..
  then show ?thesis using that by (simp add: testConcurrentConnections_def Let_def)
qed

lemma push_test_fields [simp]:
  "now (push_test t w) = now w"
  "requested (push_test t w) = requested w"
  "console_error (push_test t w) = console_error w"
  "files (push_test t w) = files w"
  "tests (this_results (push_test t w)) = tests (this_results w) @ [t]"
  "summary (this_results (push_test t w)) = summary (this_results w)"
  "timestamp (this_results (push_test t w)) = timestamp (this_results w)"
  by (simp_all add: push_test_def)

section \<open>Claims about the batch scheduler\<close>

text \<open>
  Claim C1, as stated: for every result of a batch run with \<open>totalRequests > 0\<close>, the
  recorded successes plus failures equal \<open>totalRequests\<close>, including runs in which
  some request ends in a transport error.  It fails: in a run of one request whose
  connection is refused nothing is recorded, and the sum is 0, not 1.
\<close>

theorem transport_error_breaks_count:
  "(case testConcurrentConnections ''/api/users'' 1 1 (\<lambda>k. refused 5) fresh of
      None \<Rightarrow> False
    | Some (r, w') \<Rightarrow>
        int (successful_requests (results r) + failed_requests (results r)) \<noteq> total_requests (configuration r))"
  by code_simp

text \<open>
  Claim C1, amended: for every result of a batch run with \<open>totalRequests > 0\<close>, the
  successes plus the failures are the number of requests whose group has no transport
  error; they equal \<open>totalRequests\<close> when no request of the run ends in a transport
  error.
\<close>

theorem recorded_outcomes_counted:
  assumes "testConcurrentConnections ep c N env w = Some (r, w')" and "0 < N"
  shows "successful_requests (results r) + failed_requests (results r)
           = length (filter (group_ok c N env) [0 ..< nat N])
         \<and> (none_rejected env (nat N) \<longrightarrow>
              int (successful_requests (results r) + failed_requests (results r))
                = total_requests (configuration r))"
proof -
  from assms(1) obtain s where s: "schedule c N env (now w) = Some s"
    and r: "r = \<lparr>endpoint = ep, configuration = \<lparr>concurrency = c, total_requests = N\<rparr>,
                 results = statistics N (clock s - now w) (outcomes s)\<rparr>"
    by (rule tcc_result)
  have sum: "successful_requests (results r) + failed_requests (results r) = length (outcomes s)"
    unfolding r by (simp add: statistics_counts)
  have rec: "outcomes s = recorded c N env (nat N)" by (rule schedule_facts(3)[OF s])
  have 1: "successful_requests (results r) + failed_requests (results r)
           = length (filter (group_ok c N env) [0 ..< nat N])"
    unfolding sum rec by (simp add: recorded_def)
  have 2: "none_rejected env (nat N) \<longrightarrow>
              int (successful_requests (results r) + failed_requests (results r))
                = total_requests (configuration r)"
  proof
    assume "none_rejected env (nat N)"
    then have "length (outcomes s) = nat N" unfolding rec by (simp add: recorded_all)
    with assms(2) show "int (successful_requests (results r) + failed_requests (results r))
                = total_requests (configuration r)"
      unfolding sum by (simp add: r)
  qed
  from 1 2 show ?thesis ..
qed

theorem recorded_outcomes_counted_witness:
  "(case testConcurrentConnections ''/api/users'' 2 3 (\<lambda>k. answered 10 (if k = 1 then 500 else 200)) fresh of
      None \<Rightarrow> False
    | Some (r, w') \<Rightarrow>
        (0::int) < 3 \<and> none_rejected (\<lambda>k. answered 10 (if k = 1 then 500 else 200)) (nat 3)
        \<and> successful_requests (results r) = 2 \<and> failed_requests (results r) = 1
        \<and> int (successful_requests (results r) + failed_requests (results r))
             = total_requests (configuration r))"
proof -
  let ?env = "\<lambda>k. answered 10 (if k = 1 then 500 else 200)"
  obtain r w' where e: "testConcurrentConnections ''/api/users'' 2 3 ?env fresh = Some (r, w')"
    by (rule tcc_returns[of 2]) simp_all
  have c: "map_option (counts \<circ> fst) (testConcurrentConnections ''/api/users'' 2 3 ?env fresh) = Some (2, 1, 3)"
    by code_simp
  have h: "none_rejected ?env (nat 3)" by code_simp
  from recorded_outcomes_counted[OF e] h
  have "int (successful_requests (results r) + failed_requests (results r)) = total_requests (configuration r)"
    by simp
  with c h show ?thesis unfolding e by (simp add: counts_def)
qed

text \<open>
  Claim C2, as stated: a transport error on one request does not abort the batch; that
  request is recorded as a failed outcome, every other request of the batch is still
  executed and recorded, and the error is never propagated past the scheduler.  The
  recording fails: in a run of one group of two requests, the first refused and the
  second answered with status 200, neither a failure nor a success is recorded.
\<close>

theorem transport_error_not_recorded:
  "(case testConcurrentConnections ''/api/users'' 2 2 (\<lambda>k. if k = 0 then refused 5 else answered 10 200) fresh of
      None \<Rightarrow> False
    | Some (r, w') \<Rightarrow>
        successful_requests (results r) = 0 \<and> failed_requests (results r) = 0
        \<and> total_requests (configuration r) = 2)"
  by code_simp

text \<open>
  Claim C2, amended: a transport error on one request does not abort the run and is never
  propagated past \<open>testConcurrentConnections\<close>: with a positive concurrency the call
  returns a result and all \<open>totalRequests\<close> requests are issued.  No outcome is recorded
  for the failing request nor for the other requests of its group: the statistics are
  computed from the outcomes of exactly the requests whose group has no transport error.
\<close>

theorem transport_error_drops_group:
  assumes "0 < c"
  shows "\<exists>r w'. testConcurrentConnections ep c N env w = Some (r, w')
           \<and> requested w' = requested w + replicate_mset (nat N) ep
           \<and> results r = statistics N (now w' - now w)
                            (map (\<lambda>k. outcome_of (env k)) (filter (group_ok c N env) [0 ..< nat N]))"
proof -
  obtain r w' where e: "testConcurrentConnections ep c N env w = Some (r, w')"
    using assms by (rule tcc_returns)
  then obtain s where s: "schedule c N env (now w) = Some s"
    and r: "r = \<lparr>endpoint = ep, configuration = \<lparr>concurrency = c, total_requests = N\<rparr>,
                 results = statistics N (clock s - now w) (outcomes s)\<rparr>"
    and w': "w' = push_test (Concurrent r)
                (w\<lparr>now := clock s, console_error := console_error w @ errlog s,
                   requested := requested w + replicate_mset (issued s) ep\<rparr>)"
    by (rule tcc_result)
  have "requested w' = requested w + replicate_mset (nat N) ep"
    unfolding w' by (simp add: schedule_facts(1)[OF s])
  moreover have "results r = statistics N (now w' - now w)
                            (map (\<lambda>k. outcome_of (env k)) (filter (group_ok c N env) [0 ..< nat N]))"
    unfolding w' by (simp add: r schedule_facts(3)[OF s] recorded_def)
  ultimately show ?thesis using e by blast
qed

theorem transport_error_drops_group_witness:
  "(0::int) < 2
   \<and> map_option (counts \<circ> fst)
        (testConcurrentConnections ''/api/users'' 2 4 (\<lambda>k. if k = 0 then refused 1 else answered 100 200) fresh)
      = Some (2, 0, 4)
   \<and> filter (group_ok 2 4 (\<lambda>k. if k = 0 then refused 1 else answered 100 200)) [0 ..< nat 4] = [2, 3]"
proof -
  let ?env = "\<lambda>k. if k = 0 then refused 1 else answered 100 200"
  have g: "filter (group_ok 2 4 ?env) [0 ..< nat 4] = [2, 3]" by code_simp
  have pos: "(0::int) < 2" by simp
  from transport_error_drops_group[OF pos, of "''/api/users''" 4 ?env fresh]
  obtain r w' where e: "testConcurrentConnections ''/api/users'' 2 4 ?env fresh = Some (r, w')"
    and r: "results r = statistics 4 (now w' - now fresh)
                            (map (\<lambda>k. outcome_of (?env k)) (filter (group_ok 2 4 ?env) [0 ..< nat 4]))"
    by blast
  have t: "total_requests (configuration r) = 4" by (rule tcc_result[OF e]) simp
  have "successful_requests (results r) = 2 \<and> failed_requests (results r) = 0"
    unfolding r g by (simp add: statistics_def Let_def outcome_of_def answered_def)
  with t g show ?thesis unfolding e by (simp add: counts_def)
qed

text \<open>
  Claim C5, as stated: called with \<open>totalRequests = 0\<close>, the scheduler fails with an
  \<open>InvalidConfiguration\<close> error.  It does not fail: the call returns a result and
  appends it to the tests of the report.
\<close>

theorem zero_requests_no_error:
  "(case testConcurrentConnections ''/api/users'' 100 0 (\<lambda>k. answered 10 200) fresh of
      None \<Rightarrow> False
    | Some (r, w') \<Rightarrow> tests (this_results w') = [Concurrent r] \<and> total_requests (configuration r) = 0)"
  by code_simp

text \<open>
  Claim C5, amended: called with \<open>totalRequests = 0\<close>, \<open>testConcurrentConnections\<close> does
  not fail.  It issues no request and returns a result with no success and no failure,
  whose rates and times are not numbers (\<open>NaN%\<close>, \<open>NaNms\<close>, \<open>Infinityms\<close>,
  \<open>-Infinityms\<close>), and appends it to the tests of the report; the entries accumulated
  before, the summary and the timestamp are unchanged.
\<close>

theorem zero_requests_returns_result:
  "\<exists>r w'. testConcurrentConnections ep c 0 env w = Some (r, w')
       \<and> tests (this_results w') = tests (this_results w) @ [Concurrent r]
       \<and> summary (this_results w') = summary (this_results w)
       \<and> timestamp (this_results w') = timestamp (this_results w)
       \<and> requested w' = requested w \<and> console_error w' = console_error w
       \<and> files w' = files w \<and> now w' = now w
       \<and> successful_requests (results r) = 0 \<and> failed_requests (results r) = 0
       \<and> success_rate (results r) = ''NaN%''
       \<and> requests_per_second (results r) = NaN
       \<and> response_times (results r)
            = \<lparr>average = ''NaNms'', minimum = ''Infinityms'', maximum = ''-Infinityms''\<rparr>"
proof -
  have s: "schedule c 0 env (now w) = Some \<lparr>clock = now w, outcomes = [], issued = 0, errlog = [], spans = []\<rparr>"
    by (rule schedule_nothing) simp
  show ?thesis
    by (simp add: testConcurrentConnections_def s Let_def statistics_def js_div_def)
qed

text \<open>
  Claim C7, as stated: the scheduler partitions the requests into consecutive groups of
  size at most C, never has more than C requests in flight, and never starts a group
  before every request of the group before has completed.  The last two fail when a
  request is rejected: with a concurrency of 2 and four requests, the first refused after
  a millisecond and the others answered after 100, the second group is dispatched at time
  1, when the second request is still in flight: three requests are in flight.
\<close>

theorem in_flight_exceeds_limit:
  "(case schedule 2 4 (\<lambda>k. if k = 0 then refused 1 else answered 100 200) 0 of
      None \<Rightarrow> False
    | Some s \<Rightarrow> in_flight (spans s) 1 = 3 \<and> \<not> sequenced (spans s))"
  by code_simp

text \<open>
  Claim C7, amended: the scheduler partitions the requests into consecutive groups of
  size at most C: request \<open>k\<close> is issued in the turn of the loop variable
  \<open>C * (k div C)\<close>, so every group but the last has C requests.  When no request of the
  run ends in a transport error, there are never more than C requests in flight and no
  group is started before every request of the groups before has completed.
\<close>

theorem groups_and_concurrency:
  assumes "schedule c N env t0 = Some s"
  shows "map group_of (spans s) = map (\<lambda>k. c * int (k div nat c)) [0 ..< nat N]
         \<and> (none_rejected env (nat N) \<longrightarrow>
              (\<forall>t. in_flight (spans s) t \<le> nat c) \<and> sequenced (spans s))"
proof -
  have 1: "map group_of (spans s) = map (\<lambda>k. c * int (k div nat c)) [0 ..< nat N]"
    by (rule schedule_facts(2)[OF assms])
  have 2: "none_rejected env (nat N) \<longrightarrow> (\<forall>t. in_flight (spans s) t \<le> nat c) \<and> sequenced (spans s)"
  proof
    assume "none_rejected env (nat N)"
    from schedule_timing[OF assms this] obtain b where "timing c t0 b s" ..
    then show "(\<forall>t. in_flight (spans s) t \<le> nat c) \<and> sequenced (spans s)"
      unfolding timing_def by blast
  qed
  from 1 2 show ?thesis ..
qed

theorem groups_and_concurrency_witness:
  "(case schedule 2 5 (\<lambda>k. answered (10 + k) (if k = 1 then 500 else 200)) 0 of
      None \<Rightarrow> False
    | Some s \<Rightarrow>
        none_rejected (\<lambda>k. answered (10 + k) (if k = 1 then 500 else 200)) (nat 5)
        \<and> map group_of (spans s) = [0, 0, 2, 2, 4]
        \<and> in_flight (spans s) 11 \<le> nat 2 \<and> in_flight (spans s) 12 = 2
        \<and> sequenced (spans s))"
proof -
  let ?env = "\<lambda>k. answered (10 + k) (if k = 1 then 500 else 200)"
  obtain s where e: "schedule 2 5 ?env 0 = Some s"
    using schedule_returns[of 2 5 ?env 0] by auto
  have h: "none_rejected ?env (nat 5)" by code_simp
  have g: "map (\<lambda>k. 2 * int (k div nat 2)) [0 ..< nat 5] = [0, 0, 2, 2, 4]" by code_simp
  have f: "map_option (\<lambda>s. in_flight (spans s) 12) (schedule 2 5 ?env 0) = Some 2" by code_simp
  from groups_and_concurrency[OF e] h
  have "map group_of (spans s) = map (\<lambda>k. 2 * int (k div nat 2)) [0 ..< nat 5]"
    and "\<forall>t. in_flight (spans s) t \<le> nat 2" and "sequenced (spans s)" by blast+
  with h g f show ?thesis unfolding e by simp
qed

lemma statistics_fields:
  "requests_per_second (statistics N d rs) = Math_round (js_times (js_div (of_int N) (of_int d)) 1000)"
  "total_duration (statistics N d rs) = str_int d @ ''ms''"
  "average (response_times (statistics N d rs))
     = ToString (Math_round (js_div (of_int (sum_list (map duration rs))) (of_nat (length rs)))) @ ''ms''"
  "minimum (response_times (statistics N d rs)) = ToString (Math_min (map duration rs)) @ ''ms''"
  "maximum (response_times (statistics N d rs)) = ToString (Math_max (map duration rs)) @ ''ms''"
  by (simp_all add: statistics_def Let_def)

lemma duration_outcome_of [simp]: "duration (outcome_of x) = int (latency x)"
  by (simp add: outcome_of_def split: sum.splits)

lemma timing_ends:
  assumes "timing c t0 b s" and "spans s \<noteq> []"
  shows "dispatched (hd (spans s)) = t0" and "Max (settled ` set (spans s)) = clock s"
proof -
  from assms show "dispatched (hd (spans s)) = t0" by (simp add: timing_def)
  from assms obtain x where x: "x \<in> set (spans s)" "settled x = clock s"
    unfolding timing_def by blast
  from assms have le: "\<And>y. y \<in> set (spans s) \<Longrightarrow> settled y \<le> clock s"
    unfolding timing_def by blast
  show "Max (settled ` set (spans s)) = clock s"
  proof (rule Max_eqI)
    show "finite (settled ` set (spans s))" by simp
    show "\<And>y. y \<in> settled ` set (spans s) \<Longrightarrow> y \<le> clock s" using le by auto
    show "clock s \<in> settled ` set (spans s)" using x by force
  qed
qed

text \<open>
  Claim C8, as stated: the throughput is \<open>round(totalRequests / totalDurationMillis * 1000)\<close>
  and the latency average, minimum and maximum are computed over the durations of all
  \<open>totalRequests\<close> outcomes, failed ones included.  The second part fails: of two
  requests run one at a time, the first refused after 5 ms and the second answered after
  10 ms, only the second contributes, and the average is 10 ms, not the 8 ms of both.
\<close>

theorem latencies_skip_failed_group:
  "(case testConcurrentConnections ''/api/users'' 1 2 (\<lambda>k. if k = 0 then refused 5 else answered 10 200) fresh of
      None \<Rightarrow> False
    | Some (r, w') \<Rightarrow>
        average (response_times (results r)) = ''10ms''
        \<and> ToString (Math_round (js_div (of_int (sum_list [5, 10])) (of_nat 2))) @ ''ms'' = ''8ms'')"
  by code_simp

text \<open>
  Claim C8, amended: the throughput is \<open>round(totalRequests / totalDurationMillis * 1000)\<close>,
  where \<open>totalDurationMillis\<close> is the time on the clock from the start of the call to the
  end of its loop.  When no request of the run ends in a transport error (and
  \<open>totalRequests > 0\<close>), that is the time from the first dispatch to the last completion,
  and the latency average, minimum and maximum are computed over the durations of all
  \<open>totalRequests\<close> outcomes, whatever their status code.
\<close>

theorem throughput_and_latencies:
  assumes "testConcurrentConnections ep c N env w = Some (r, w')" and "0 < N"
    and "none_rejected env (nat N)"
  shows "requests_per_second (results r)
           = Math_round (js_times (js_div (of_int N) (of_int (now w' - now w))) 1000)
         \<and> (\<exists>s. schedule c N env (now w) = Some s
                \<and> now w = dispatched (hd (spans s))
                \<and> now w' = Max (settled ` set (spans s)))
         \<and> average (response_times (results r))
             = ToString (Math_round (js_div (of_int (sum_list (map (\<lambda>k. int (latency (env k))) [0 ..< nat N])))
                                            (of_nat (nat N)))) @ ''ms''
         \<and> minimum (response_times (results r))
             = ToString (Math_min (map (\<lambda>k. int (latency (env k))) [0 ..< nat N])) @ ''ms''
         \<and> maximum (response_times (results r))
             = ToString (Math_max (map (\<lambda>k. int (latency (env k))) [0 ..< nat N])) @ ''ms''"
proof -
  from assms(1) obtain s where s: "schedule c N env (now w) = Some s"
    and r: "r = \<lparr>endpoint = ep, configuration = \<lparr>concurrency = c, total_requests = N\<rparr>,
                 results = statistics N (clock s - now w) (outcomes s)\<rparr>"
    and w': "w' = push_test (Concurrent r)
                (w\<lparr>now := clock s, console_error := console_error w @ errlog s,
                   requested := requested w + replicate_mset (issued s) ep\<rparr>)"
    by (rule tcc_result)
  have now': "now w' = clock s" unfolding w' by simp
  have res: "results r = statistics N (now w' - now w) (outcomes s)" unfolding now' by (simp add: r)
  have out: "outcomes s = map (\<lambda>k. outcome_of (env k)) [0 ..< nat N]"
    using schedule_facts(3)[OF s] recorded_all[OF assms(3)] by simp
  have dur: "map duration (outcomes s) = map (\<lambda>k. int (latency (env k))) [0 ..< nat N]"
    unfolding out by (simp add: comp_def)
  have len: "length (outcomes s) = nat N" unfolding out by simp
  have "length (map group_of (spans s)) = nat N"
    unfolding schedule_facts(2)[OF s] by simp
  with assms(2) have ne: "spans s \<noteq> []" by auto
  from schedule_timing[OF s assms(3)] obtain b where t: "timing c (now w) b s" ..
  have 1: "requests_per_second (results r)
           = Math_round (js_times (js_div (of_int N) (of_int (now w' - now w))) 1000)"
    unfolding res by (rule statistics_fields(1))
  have 2: "\<exists>s. schedule c N env (now w) = Some s
                \<and> now w = dispatched (hd (spans s))
                \<and> now w' = Max (settled ` set (spans s))"
    using s timing_ends[OF t ne] now' by auto
  have 3: "average (response_times (results r))
             = ToString (Math_round (js_div (of_int (sum_list (map (\<lambda>k. int (latency (env k))) [0 ..< nat N])))
                                            (of_nat (nat N)))) @ ''ms''"
    unfolding res statistics_fields(3) dur len ..
  have 4: "minimum (response_times (results r))
             = ToString (Math_min (map (\<lambda>k. int (latency (env k))) [0 ..< nat N])) @ ''ms''"
    unfolding res statistics_fields(4) dur ..
  have 5: "maximum (response_times (results r))
             = ToString (Math_max (map (\<lambda>k. int (latency (env k))) [0 ..< nat N])) @ ''ms''"
    unfolding res statistics_fields(5) dur ..
  from 1 2 3 4 5 show ?thesis by (intro conjI)
qed

theorem throughput_and_latencies_witness:
  "(case testConcurrentConnections ''/api/users'' 5 20 (\<lambda>k. answered 10 (if k < 3 then 500 else 200)) fresh of
      None \<Rightarrow> False
    | Some (r, w') \<Rightarrow>
        (0::int) < 20 \<and> none_rejected (\<lambda>k. answered 10 (if k < 3 then 500 else 200)) (nat 20)
        \<and> now w' - now fresh = 40
        \<and> requests_per_second (results r) = Finite 500
        \<and> failed_requests (results r) = 3
        \<and> average (response_times (results r)) = ''10ms''
        \<and> minimum (response_times (results r)) = ''10ms''
        \<and> maximum (response_times (results r)) = ''10ms'')"
proof -
  let ?env = "\<lambda>k. answered 10 (if k < 3 then 500 else 200)"
  obtain r w' where e: "testConcurrentConnections ''/api/users'' 5 20 ?env fresh = Some (r, w')"
    by (rule tcc_returns[of 5]) simp_all
  have h: "none_rejected ?env (nat 20)" by code_simp
  have pos: "(0::int) < 20" by simp
  have d: "map_option (\<lambda>p. (now (snd p) - now fresh, failed_requests (results (fst p))))
             (testConcurrentConnections ''/api/users'' 5 20 ?env fresh) = Some (40, 3)"
    by code_simp
  then have d': "now w' - now fresh = 40" "failed_requests (results r) = 3" unfolding e by simp_all
  have lat: "map (\<lambda>k. int (latency (?env k))) [0 ..< nat 20] = replicate 20 10" by code_simp
  have v1: "Math_round (js_times (js_div (of_int 20) (of_int 40)) 1000) = Finite 500" by code_simp
  have v2: "ToString (Math_round (js_div (of_int (sum_list (replicate 20 10))) (of_nat (nat 20)))) @ ''ms'' = ''10ms''"
    by code_simp
  have v3: "ToString (Math_min (replicate 20 10)) @ ''ms'' = ''10ms''" by code_simp
  have v4: "ToString (Math_max (replicate 20 10)) @ ''ms'' = ''10ms''" by code_simp
  from throughput_and_latencies[OF e pos h]
  have "requests_per_second (results r) = Finite 500"
    and "average (response_times (results r)) = ''10ms''"
    and "minimum (response_times (results r)) = ''10ms''"
    and "maximum (response_times (results r)) = ''10ms''"
    unfolding lat d' v1 v2 v3 v4 by blast+
  with h d' show ?thesis unfolding e by simp
qed

section \<open>Claims about the report\<close>

lemma foldl_map_fuse: "foldl (\<lambda>sum t. js_plus sum (f t)) a ts = foldl js_plus a (map f ts)"
  by (induction ts arbitrary: a) simp_all

lemma foldl_plus_Finite: "foldl js_plus (Finite a) (map Finite ps) = Finite (a + sum_list ps)"
  by (induction ps arbitrary: a) (simp_all add: add.assoc)

lemma calculateScalabilityRating_means:
  "ts \<noteq> [] \<Longrightarrow>
     calculateScalabilityRating ts
       = spec_scalabilityRating (mean (map rate_of ts)) (mean (map throughput_of ts))"
  unfolding calculateScalabilityRating_def spec_scalabilityRating_def mean_def Let_def
    foldl_map_fuse[of "\<lambda>t. parseFloat (success_rate (results t))"]
    foldl_map_fuse[of "\<lambda>t. parseInt (ToString (requests_per_second (results t)))"]
  by (simp add: rate_of_def[abs_def] throughput_of_def[abs_def])

lemma mean_Finite: "ps \<noteq> [] \<Longrightarrow> mean (map Finite ps) = Finite (sum_list ps / of_nat (length ps))"
  by (simp add: mean_def foldl_plus_Finite js_div_def)

text \<open>
  Claim C3: \<open>calculateScalabilityRating\<close> gives \<open>NoData\<close> for no test; otherwise it
  classifies the mean success rate and the mean throughput of the tests by the
  thresholds of the spec, in order, with strict inequalities, the first match winning
  (the means of finite values being their arithmetic means).  A mean success rate of
  exactly 95 with a mean throughput of 900 is \<open>Scalable\<close>.
\<close>

theorem scalability_thresholds:
  "calculateScalabilityRating [] = NoData
   \<and> (ts \<noteq> [] \<longrightarrow>
        calculateScalabilityRating ts
          = spec_scalabilityRating (mean (map rate_of ts)) (mean (map throughput_of ts)))
   \<and> (ps \<noteq> [] \<longrightarrow> mean (map Finite ps) = Finite (sum_list ps / of_nat (length ps)))
   \<and> spec_scalabilityRating (Finite s) (Finite t)
        = (if 95 < s \<and> 800 < t then HighlyScalable
           else if 90 < s \<and> 500 < t then Scalable
           else if 80 < s \<and> 200 < t then ModeratelyScalable
           else LimitedScalability)
   \<and> spec_scalabilityRating (Finite 95) (Finite 900) = Scalable"
proof -
  have 1: "calculateScalabilityRating [] = NoData" by (simp add: calculateScalabilityRating_def)
  have 4: "spec_scalabilityRating (Finite s) (Finite t)
        = (if 95 < s \<and> 800 < t then HighlyScalable
           else if 90 < s \<and> 500 < t then Scalable
           else if 80 < s \<and> 200 < t then ModeratelyScalable
           else LimitedScalability)"
    by (simp add: spec_scalabilityRating_def)
  have 5: "spec_scalabilityRating (Finite 95) (Finite 900) = Scalable"
    by (simp add: spec_scalabilityRating_def)
  show ?thesis
    using 1 calculateScalabilityRating_means mean_Finite 4 5 by (intro conjI impI)
qed

theorem scalability_thresholds_witness:
  "[rated ''96%'' 900, rated ''94%'' 900] \<noteq> []
   \<and> map rate_of [rated ''96%'' 900, rated ''94%'' 900] = map Finite [96, 94]
   \<and> map throughput_of [rated ''96%'' 900, rated ''94%'' 900] = map Finite [900, 900]
   \<and> [96, 94 :: rat] \<noteq> []
   \<and> mean (map Finite [96, 94]) = Finite 95
   \<and> calculateScalabilityRating [rated ''96%'' 900, rated ''94%'' 900] = Scalable"
proof -
  let ?ts = "[rated ''96%'' 900, rated ''94%'' 900]"
  have r: "map rate_of ?ts = map Finite [96, 94]" by code_simp
  have t: "map throughput_of ?ts = map Finite [900, 900]" by code_simp
  have ne: "?ts \<noteq> []" by simp
  have ne': "[96, 94 :: rat] \<noteq> []" "[900, 900 :: rat] \<noteq> []" by simp_all
  note T = scalability_thresholds[of ?ts "[96, 94]" 95 900]
  note U = scalability_thresholds[of ?ts "[900, 900]" 95 900]
  from T ne have c: "calculateScalabilityRating ?ts
      = spec_scalabilityRating (mean (map rate_of ?ts)) (mean (map throughput_of ?ts))" by blast
  from T ne' have m1: "mean (map Finite [96, 94]) = Finite (sum_list [96, 94] / of_nat (length [96, 94 :: rat]))"
    by blast
  from U ne' have m2: "mean (map Finite [900, 900]) = Finite (sum_list [900, 900] / of_nat (length [900, 900 :: rat]))"
    by blast
  from T have s: "spec_scalabilityRating (Finite 95) (Finite 900) = Scalable" by blast
  have m1': "mean (map Finite [96, 94]) = Finite 95" unfolding m1 by simp
  have m2': "mean (map Finite [900, 900]) = Finite 900" unfolding m2 by simp
  have "calculateScalabilityRating ?ts = Scalable" unfolding c r t m1' m2' s ..
  with r t m1' show ?thesis by simp
qed

text \<open>
  Claim C9: the text \<open>formatReportAsText\<close> produces depends on the report alone: whatever
  the state of the tester and of the rest of the world, the same report gives the same
  text, byte for byte.
\<close>

theorem formatReportAsText_pure:
  "formatReportAsText w1 report = formatReportAsText w2 report"
  by (simp add: formatReportAsText_def)

lemma generateReport_idempotent:
  "generateReport (snd (generateReport w)) = generateReport w"
  by (simp add: generateReport_def Let_def)

section \<open>Claims about the resource sweep\<close>

lemma JSON_parse_object: "JSON_parse (object_ToString r) = Inl SyntaxError"
  unfolding object_ToString_def by code_simp

lemma monitor_pushes_nothing: "fst (monitor startTime t p) = None"
  by (simp add: monitor_def Let_def JSON_parse_object split: sum.splits)

lemma testResourceUsage_returns:
  obtains t r w' where "testResourceUsage load probes w = Some (r, w')"
    and "measurements r = 0" and "samples (memory_usage r) = 0"
    and "tests (this_results w') = tests (this_results w) @ [Concurrent t, Resource r]"
    and "files w' = files w"
proof -
  obtain t w1 where e: "testConcurrentConnections ''/api/users'' 20 300 load w = Some (t, w1)"
    by (rule tcc_returns[of 20]) simp_all
  have t: "tests (this_results w1) = tests (this_results w) @ [Concurrent t]"
    by (rule tcc_result[OF e]) simp
  have f: "files w1 = files w"
    by (rule tcc_result[OF e]) simp
  have "\<exists>r w'. testResourceUsage load probes w = Some (r, w')
          \<and> measurements r = 0 \<and> samples (memory_usage r) = 0
          \<and> tests (this_results w') = tests (this_results w) @ [Concurrent t, Resource r]
          \<and> files w' = files w"
    by (simp add: testResourceUsage_def e Let_def monitor_pushes_nothing t f)
  then show ?thesis using that by blast
qed

text \<open>
  Claim C10: in the resource sweep, \<open>JSON.parse\<close> applied to the result object of the
  second health request throws; the exception is swallowed, so no call of the monitoring
  callback pushes a measurement, and the entry of the sweep records \<open>measurements = 0\<close>
  and \<open>samples = 0\<close>, whatever the load and the probes do and however long they take.
\<close>

theorem no_measurement_recorded:
  "JSON_parse (object_ToString outcome) = Inl SyntaxError
   \<and> fst (monitor startTime t p) = None
   \<and> (\<exists>b r w'. testResourceUsage load probes w = Some (r, w')
          \<and> measurements r = 0 \<and> samples (memory_usage r) = 0
          \<and> tests (this_results w') = tests (this_results w) @ [Concurrent b, Resource r])"
proof -
  have "\<exists>b r w'. testResourceUsage load probes w = Some (r, w')
          \<and> measurements r = 0 \<and> samples (memory_usage r) = 0
          \<and> tests (this_results w') = tests (this_results w) @ [Concurrent b, Resource r]"
    by (rule testResourceUsage_returns[of load probes w]) blast
  then show ?thesis
    using JSON_parse_object monitor_pushes_nothing by (intro conjI)
qed

end
